theory Spec2Isabelle
  imports Main "HOL-Library.Word" "HOL-Library.List_Lexorder" "HOL-Library.Finite_Map"
begin

section \<open>JavaScript strings\<close>

text \<open>
  A JavaScript string is a sequence of UTF-16 code units. \<open>js\<close> embeds an ASCII literal.
  The ordering of \<open>jsstring\<close> is the lexicographic ordering of code units, which is the
  ordering \<^verbatim>\<open>Array.prototype.sort\<close> uses when no comparator is given.
\<close>

type_synonym jschar = "16 word"
type_synonym jsstring = "jschar list"

definition js :: "string \<Rightarrow> jsstring" where
  "js s = map of_char s"

text \<open>
  The code units that \<^verbatim>\<open>String.prototype.trim\<close> strips and that the regular expression
  class \<^verbatim>\<open>\s\<close> matches: ECMAScript's WhiteSpace and LineTerminator productions.
\<close>

definition isWhiteSpace :: "jschar \<Rightarrow> bool" where
  "isWhiteSpace c \<longleftrightarrow>
     c = 0x09 \<or> c = 0x0A \<or> c = 0x0B \<or> c = 0x0C \<or> c = 0x0D \<or> c = 0x20 \<or> c = 0xA0 \<or>
     c = 0x1680 \<or> (0x2000 \<le> c \<and> c \<le> 0x200A) \<or> c = 0x2028 \<or> c = 0x2029 \<or>
     c = 0x202F \<or> c = 0x205F \<or> c = 0x3000 \<or> c = 0xFEFF"

definition trim :: "jsstring \<Rightarrow> jsstring" where
  "trim s = rev (dropWhile isWhiteSpace (rev (dropWhile isWhiteSpace s)))"

text \<open>\<^verbatim>\<open>Array.prototype.join\<close> on an array of strings.\<close>

fun joinWith :: "jsstring \<Rightarrow> jsstring list \<Rightarrow> jsstring" where
  "joinWith sep [] = []"
| "joinWith sep [x] = x"
| "joinWith sep (x # y # ys) = x @ sep @ joinWith sep (y # ys)"

text \<open>The decimal rendering of a non-negative integer inside a template literal.\<close>

fun showNat :: "nat \<Rightarrow> jsstring" where
  "showNat n =
     (if n < 10 then [of_nat (48 + n)] else showNat (n div 10) @ [of_nat (48 + n mod 10)])"

declare showNat.simps [simp del]

text \<open>\<^verbatim>\<open>s.split(/\n/)\<close>, for any separator code unit.\<close>

fun splitOn :: "jschar \<Rightarrow> jsstring \<Rightarrow> jsstring list" where
  "splitOn d [] = [[]]"
| "splitOn d (c # cs) =
     (if c = d then [] # splitOn d cs
      else (case splitOn d cs of l # ls \<Rightarrow> (c # l) # ls | [] \<Rightarrow> [[c]]))"

text \<open>\<^verbatim>\<open>s.replace(/^\uFEFF/, '')\<close> and \<^verbatim>\<open>s.replace(/\r$/, '')\<close>.\<close>

definition stripLeadingBOM :: "jsstring \<Rightarrow> jsstring" where
  "stripLeadingBOM s = (case s of [] \<Rightarrow> [] | c # cs \<Rightarrow> if c = 0xFEFF then cs else s)"

definition stripTrailingCR :: "jsstring \<Rightarrow> jsstring" where
  "stripTrailingCR s = (if s \<noteq> [] \<and> last s = 0x0D then butlast s else s)"

text \<open>
  \<^verbatim>\<open>s.replace(/X+/g, ' ')\<close> for a character class \<open>X\<close>: every maximal run of
  matching code units becomes one space. The flag says whether the previous code unit
  belonged to a run.
\<close>

fun collapseRuns :: "(jschar \<Rightarrow> bool) \<Rightarrow> bool \<Rightarrow> jsstring \<Rightarrow> jsstring" where
  "collapseRuns P inRun [] = []"
| "collapseRuns P inRun (c # cs) =
     (if P c then (if inRun then collapseRuns P True cs else 0x20 # collapseRuns P True cs)
      else c # collapseRuns P False cs)"

text \<open>
  \<^verbatim>\<open>String.prototype.toLowerCase\<close> follows the host's Unicode case tables, which are
  not part of the repository; every definition that lowercases takes the function as its
  first argument. \<open>toLowerCaseASCII\<close> is what it does on strings of ASCII code units, and
  is used to run the importer on concrete ASCII documents.
\<close>

definition toLowerCaseASCII :: "jsstring \<Rightarrow> jsstring" where
  "toLowerCaseASCII s = map (\<lambda>c. if 0x41 \<le> c \<and> c \<le> 0x5A then c + 0x20 else c) s"


section \<open>JavaScript numbers\<close>

text \<open>
  A Number is a double. The model keeps \<^verbatim>\<open>NaN\<close>, the two infinities and the negative
  zero apart, and has the integers for the finite values: the numbers of the program
  are counts of sets, indices, versions and milliseconds. \<open>Finite 0\<close> is the positive
  zero.
\<close>

datatype number = NaN | Infinity | NegInfinity | NegZero | Finite int

text \<open>
  The double nearest to a natural number, ties going to the even significand; \<open>None\<close>
  when the nearest double would be \<open>2 ^ 1024\<close> or more, where the Number is an
  infinity. Up to \<open>2 ^ 53\<close> every integer is a double.
\<close>

fun bitLength :: "nat \<Rightarrow> nat" where
  "bitLength n = (if n = 0 then 0 else Suc (bitLength (n div 2)))"

declare bitLength.simps [simp del]

definition nearestDouble :: "nat \<Rightarrow> nat option" where
  "nearestDouble m =
     (if m < 2 ^ 53 then Some m
      else
        let e = bitLength m - 53;
            q = m div 2 ^ e;
            r = m mod 2 ^ e;
            q' = (if 2 ^ e < 2 * r \<or> (2 * r = 2 ^ e \<and> odd q) then q + 1 else q)
        in if q' * 2 ^ e < 2 ^ 1024 then Some (q' * 2 ^ e) else None)"


section \<open>Tokenizer: \<^verbatim>\<open>splitCsvLine\<close> (parseCsv.ts, lines 13-63)\<close>

text \<open>The TypeScript type of the delimiter is the union \<^verbatim>\<open>',' | '\t'\<close>.\<close>

datatype delimiter = Comma | Tab

fun delimChar :: "delimiter \<Rightarrow> jschar" where
  "delimChar Comma = 0x2C"
| "delimChar Tab = 0x09"

text \<open>
  The \<^verbatim>\<open>while (i < n)\<close> loop, as a recursion on the part of the line from index \<open>i\<close>
  on; \<open>inQuotes\<close>, \<open>cur\<close> and \<open>out\<close> are the loop's variables.
\<close>

fun splitLoop :: "jschar \<Rightarrow> bool \<Rightarrow> jsstring \<Rightarrow> jsstring list \<Rightarrow> jsstring \<Rightarrow> jsstring list" where
  "splitLoop d inQuotes cur out [] = out @ [cur]"
| "splitLoop d inQuotes cur out (ch # rest) =
     (if inQuotes then
        (if ch = 0x22 then
           (if rest \<noteq> [] \<and> hd rest = 0x22 then splitLoop d True (cur @ [0x22]) out (tl rest)
            else splitLoop d False cur out rest)
         else splitLoop d True (cur @ [ch]) out rest)
      else
        (if ch = 0x22 then splitLoop d True cur out rest
         else if ch = d then splitLoop d False [] (out @ [cur]) rest
         else if ch = 0x0D then splitLoop d False cur out rest
         else splitLoop d False (cur @ [ch]) out rest))"

definition splitCsvLine :: "jsstring \<Rightarrow> delimiter \<Rightarrow> jsstring list" where
  "splitCsvLine line delimiter = splitLoop (delimChar delimiter) False [] [] line"


section \<open>Header resolution (parseCsv.ts, lines 65-147)\<close>

definition normHeader :: "(jsstring \<Rightarrow> jsstring) \<Rightarrow> jsstring \<Rightarrow> jsstring" where
  "normHeader toLowerCase h =
     toLowerCase
       (filter (\<lambda>c. c \<noteq> 0x3A)
         (collapseRuns (\<lambda>c. c = 0x2D \<or> c = 0x5F) False
           (collapseRuns isWhiteSpace False
             (filter (\<lambda>c. c \<noteq> 0xFEFF) (trim h)))))"

definition detectDelimiter :: "jsstring \<Rightarrow> delimiter" where
  "detectDelimiter headerLine = (if 0x09 \<in> set headerLine then Tab else Comma)"

text \<open>The keys of \<^verbatim>\<open>CsvRow\<close>, which are also the canonical column names.\<close>

datatype column =
  ColDay | ColExercise | ColSets | ColRepsOrTime | ColWeight
  | ColNotes | ColFormGuidance | ColMuscleGroup | ColMainMuscle | ColDayType

fun canonName :: "column \<Rightarrow> jsstring" where
  "canonName ColDay = js ''Day''"
| "canonName ColExercise = js ''Exercise''"
| "canonName ColSets = js ''Sets''"
| "canonName ColRepsOrTime = js ''Reps or Time''"
| "canonName ColWeight = js ''Weight''"
| "canonName ColNotes = js ''Notes''"
| "canonName ColFormGuidance = js ''Form Guidance''"
| "canonName ColMuscleGroup = js ''Muscle Group''"
| "canonName ColMainMuscle = js ''Main Muscle''"
| "canonName ColDayType = js ''Day Type''"

definition headerMap :: "(column \<times> jsstring list) list" where
  "headerMap =
     [(ColDay, [js ''day'', js ''date'']),
      (ColExercise, [js ''exercise'', js ''workout'', js ''name'']),
      (ColSets, [js ''sets'', js ''set'']),
      (ColRepsOrTime, [js ''reps or time'', js ''reps/time'', js ''reps time'', js ''time'',
                       js ''duration'', js ''reps'']),
      (ColWeight, [js ''weight'', js ''load'', js ''kg'', js ''lbs'']),
      (ColNotes, [js ''notes'', js ''note'', js ''comments'']),
      (ColFormGuidance, [js ''form guidance'', js ''form'', js ''guidance'', js ''cues'',
                         js ''form cues'']),
      (ColMuscleGroup, [js ''muscle group'', js ''muscle groups'', js ''group'']),
      (ColMainMuscle, [js ''main muscle'', js ''primary muscle'', js ''target'']),
      (ColDayType, [js ''day type'', js ''type''])]"

text \<open>
  \<^verbatim>\<open>headerIndexByNorm\<close>: a \<^verbatim>\<open>Map\<close> filled cell by cell, so that of two cells with the
  same normalized name the later one keeps the key.
\<close>

fun fillHeaderIndex ::
  "(jsstring \<Rightarrow> jsstring) \<Rightarrow> nat \<Rightarrow> jsstring list \<Rightarrow> (jsstring \<rightharpoonup> nat) \<Rightarrow> (jsstring \<rightharpoonup> nat)" where
  "fillHeaderIndex toLowerCase idx [] m = m"
| "fillHeaderIndex toLowerCase idx (h # hs) m =
     fillHeaderIndex toLowerCase (idx + 1) hs (m(normHeader toLowerCase h \<mapsto> idx))"

definition headerIndexByNorm :: "(jsstring \<Rightarrow> jsstring) \<Rightarrow> jsstring list \<Rightarrow> (jsstring \<rightharpoonup> nat)" where
  "headerIndexByNorm toLowerCase headerCells = fillHeaderIndex toLowerCase 0 headerCells Map.empty"

fun findIndex :: "(jsstring \<Rightarrow> jsstring) \<Rightarrow> (jsstring \<rightharpoonup> nat) \<Rightarrow> jsstring list \<Rightarrow> nat option" where
  "findIndex toLowerCase m [] = None"
| "findIndex toLowerCase m (v # vs) =
     (case m (normHeader toLowerCase v) of
        Some idx \<Rightarrow> Some idx
      | None \<Rightarrow> findIndex toLowerCase m vs)"

text \<open>\<^verbatim>\<open>indexOf\<close>, filled by the loop over \<^verbatim>\<open>Object.entries(headerMap)\<close>.\<close>

definition indexOf :: "(jsstring \<Rightarrow> jsstring) \<Rightarrow> jsstring list \<Rightarrow> (column \<rightharpoonup> nat)" where
  "indexOf toLowerCase headerCells =
     fold (\<lambda>(canon, variants) ix.
             ix(canon := findIndex toLowerCase (headerIndexByNorm toLowerCase headerCells)
                           (canonName canon # variants)))
          headerMap Map.empty"

definition required :: "column list" where
  "required = [ColDay, ColExercise, ColSets, ColRepsOrTime, ColWeight]"

definition missingRequired :: "(jsstring \<Rightarrow> jsstring) \<Rightarrow> jsstring list \<Rightarrow> column list" where
  "missingRequired toLowerCase headerCells =
     filter (\<lambda>k. indexOf toLowerCase headerCells k = None) required"


section \<open>Importer: \<^verbatim>\<open>parseCsv\<close> (parseCsv.ts, lines 80-202)\<close>

text \<open>
  \<^verbatim>\<open>CsvRow\<close> (App.tsx, lines 18-29). Four of its fields are optional in the type; the
  importer always fills them.
\<close>

record CsvRow =
  Day :: jsstring
  Exercise :: jsstring
  Sets :: jsstring
  Reps_or_Time :: jsstring
  Weight :: jsstring
  Notes :: "jsstring option"
  Form_Guidance :: "jsstring option"
  Muscle_Group :: "jsstring option"
  Main_Muscle :: "jsstring option"
  Day_Type :: jsstring

record ParseResult =
  rows :: "CsvRow list"
  sessionNames :: "jsstring list"
  errors :: "jsstring list"

text \<open>\<^verbatim>\<open>row[k]\<close>; \<open>None\<close> is \<^verbatim>\<open>undefined\<close>.\<close>

fun cell :: "CsvRow \<Rightarrow> column \<Rightarrow> jsstring option" where
  "cell row ColDay = Some (Day row)"
| "cell row ColExercise = Some (Exercise row)"
| "cell row ColSets = Some (Sets row)"
| "cell row ColRepsOrTime = Some (Reps_or_Time row)"
| "cell row ColWeight = Some (Weight row)"
| "cell row ColNotes = Notes row"
| "cell row ColFormGuidance = Form_Guidance row"
| "cell row ColMuscleGroup = Muscle_Group row"
| "cell row ColMainMuscle = Main_Muscle row"
| "cell row ColDayType = Some (Day_Type row)"

definition emptyMessage :: jsstring where
  "emptyMessage = js ''CSV is empty''"

definition tooFewLinesMessage :: jsstring where
  "tooFewLinesMessage = js ''CSV must have a header and at least one data row''"

definition missingHeadersMessage :: "column list \<Rightarrow> jsstring list \<Rightarrow> jsstring" where
  "missingHeadersMessage missing headerCells =
     js ''Missing required headers: '' @ joinWith (js '', '') (map canonName missing)
     @ js ''. Found headers: '' @ joinWith (js '' | '') headerCells"

definition rowMessage :: "nat \<Rightarrow> column list \<Rightarrow> jsstring" where
  "rowMessage n missingInRow =
     js ''Row '' @ showNat n @ js '': missing '' @ joinWith (js '', '') (map canonName missingInRow)"

text \<open>The accessor \<^verbatim>\<open>get\<close> of the row loop: a cell out of range reads as the empty string.\<close>

definition getCell :: "(column \<rightharpoonup> nat) \<Rightarrow> jsstring list \<Rightarrow> column \<Rightarrow> jsstring" where
  "getCell ix values k =
     (case ix k of
        Some idx \<Rightarrow> if idx < length values then values ! idx else []
      | None \<Rightarrow> [])"

definition makeRow :: "(column \<rightharpoonup> nat) \<Rightarrow> jsstring list \<Rightarrow> CsvRow" where
  "makeRow ix values =
     \<lparr> Day = getCell ix values ColDay,
       Exercise = getCell ix values ColExercise,
       Sets = getCell ix values ColSets,
       Reps_or_Time = getCell ix values ColRepsOrTime,
       Weight = getCell ix values ColWeight,
       Notes = Some (getCell ix values ColNotes),
       Form_Guidance = Some (getCell ix values ColFormGuidance),
       Muscle_Group = Some (getCell ix values ColMuscleGroup),
       Main_Muscle = Some (getCell ix values ColMainMuscle),
       Day_Type = getCell ix values ColDayType \<rparr>"

text \<open>\<^verbatim>\<open>Set.prototype.add\<close> on a set kept in insertion order.\<close>

definition setAdd :: "'a \<Rightarrow> 'a list \<Rightarrow> 'a list" where
  "setAdd x xs = (if x \<in> set xs then xs else xs @ [x])"

definition missingInRow :: "CsvRow \<Rightarrow> column list" where
  "missingInRow row = filter (\<lambda>k. cell row k = None \<or> cell row k = Some []) required"

text \<open>The row that the loop body builds from a line (lines 157-176).\<close>

definition rowOfLine :: "delimiter \<Rightarrow> (column \<rightharpoonup> nat) \<Rightarrow> jsstring \<Rightarrow> CsvRow" where
  "rowOfLine delimiter ix raw =
     makeRow ix (map trim (splitCsvLine (stripTrailingCR raw) delimiter))"

text \<open>One pass through the body of the row loop, for the line \<open>raw\<close> at index \<open>lineNo\<close>.\<close>

definition processLine ::
  "delimiter \<Rightarrow> (column \<rightharpoonup> nat) \<Rightarrow> nat \<Rightarrow> jsstring \<Rightarrow> ParseResult \<Rightarrow> ParseResult" where
  "processLine delimiter ix lineNo raw acc =
     (if raw = [] \<or> trim raw = [] then acc
      else
        let row = rowOfLine delimiter ix raw
        in if Day row = [] \<and> Exercise row = [] then acc
           else
             \<lparr> rows = rows acc @ [row],
               sessionNames = (if Day row \<noteq> [] then setAdd (Day row) (sessionNames acc)
                               else sessionNames acc),
               errors = (if missingInRow row \<noteq> []
                         then errors acc @ [rowMessage (lineNo + 1) (missingInRow row)]
                         else errors acc) \<rparr>)"

text \<open>
  The loop \<^verbatim>\<open>for (let lineNo = 1; lineNo < rawLines.length; lineNo++)\<close>, on the lines from
  index \<open>lineNo\<close> on.
\<close>

fun rowLoop ::
  "delimiter \<Rightarrow> (column \<rightharpoonup> nat) \<Rightarrow> nat \<Rightarrow> jsstring list \<Rightarrow> ParseResult \<Rightarrow> ParseResult" where
  "rowLoop delimiter ix lineNo [] acc = acc"
| "rowLoop delimiter ix lineNo (raw # rest) acc =
     rowLoop delimiter ix (lineNo + 1) rest (processLine delimiter ix lineNo raw acc)"

text \<open>The values that \<^verbatim>\<open>parseCsv\<close> computes from the text before it looks at the rows.\<close>

definition rawLines :: "jsstring \<Rightarrow> jsstring list" where
  "rawLines csvText = splitOn 0x0A (stripLeadingBOM csvText)"

definition headerLine :: "jsstring \<Rightarrow> jsstring" where
  "headerLine csvText = stripTrailingCR (hd (rawLines csvText))"

definition headerCells :: "jsstring \<Rightarrow> jsstring list" where
  "headerCells csvText =
     map trim (splitCsvLine (headerLine csvText) (detectDelimiter (headerLine csvText)))"

definition parseCsv :: "(jsstring \<Rightarrow> jsstring) \<Rightarrow> jsstring \<Rightarrow> ParseResult" where
  "parseCsv toLowerCase csvText =
     (if csvText = [] \<or> trim csvText = [] then
        \<lparr> rows = [], sessionNames = [], errors = [emptyMessage] \<rparr>
      else if length (rawLines csvText) < 2 then
        \<lparr> rows = [], sessionNames = [], errors = [tooFewLinesMessage] \<rparr>
      else if missingRequired toLowerCase (headerCells csvText) \<noteq> [] then
        \<lparr> rows = [], sessionNames = [],
          errors = [missingHeadersMessage (missingRequired toLowerCase (headerCells csvText))
                      (headerCells csvText)] \<rparr>
      else
        let r = rowLoop (detectDelimiter (headerLine csvText))
                  (indexOf toLowerCase (headerCells csvText)) 1 (tl (rawLines csvText))
                  \<lparr> rows = [], sessionNames = [], errors = [] \<rparr>
        in r \<lparr> sessionNames := sort (sessionNames r) \<rparr>)"


section \<open>Session builder: \<^verbatim>\<open>buildTodaySessions\<close> (unnamed/part_006, imported as selectors)\<close>

text \<open>
  \<^verbatim>\<open>parseInt(string)\<close> with no radix, after ECMAScript: leading white space is skipped, a
  sign is read, a prefix \<^verbatim>\<open>0x\<close> or \<^verbatim>\<open>0X\<close> selects radix 16, and the longest run of
  digits is read. Without a digit the result is \<^verbatim>\<open>NaN\<close>; a zero keeps the sign; any
  other value is the double nearest to the integer read. (For a decimal numeral of more
  than 20 significant digits ECMAScript lets the host read the digits after the
  twentieth as zeros; the model reads them all.)
\<close>

definition digitValue :: "jschar \<Rightarrow> nat" where
  "digitValue c =
     (if 0x30 \<le> c \<and> c \<le> 0x39 then unat c - 48
      else if 0x61 \<le> c \<and> c \<le> 0x7A then unat c - 87
      else if 0x41 \<le> c \<and> c \<le> 0x5A then unat c - 55
      else 36)"

definition parseInt :: "jsstring \<Rightarrow> number" where
  "parseInt string =
     (let s = dropWhile isWhiteSpace string;
          negative = (s \<noteq> [] \<and> hd s = 0x2D);
          s1 = (if s \<noteq> [] \<and> (hd s = 0x2B \<or> hd s = 0x2D) then tl s else s);
          hex = (2 \<le> length s1 \<and> hd s1 = 0x30 \<and> (s1 ! 1 = 0x78 \<or> s1 ! 1 = 0x58));
          radix = (if hex then 16 else 10);
          s2 = (if hex then drop 2 s1 else s1);
          digits = takeWhile (\<lambda>c. digitValue c < radix) s2;
          mathInt = foldl (\<lambda>acc c. acc * radix + digitValue c) 0 digits
      in if digits = [] then NaN
         else if mathInt = 0 then (if negative then NegZero else Finite 0)
         else (case nearestDouble mathInt of
                 None \<Rightarrow> if negative then NegInfinity else Infinity
               | Some m \<Rightarrow> Finite (if negative then - int m else int m)))"

record ExerciseVM =
  id' :: jsstring
  sessionName :: jsstring
  name :: jsstring
  sets :: number
  repsText :: jsstring
  weightText :: jsstring
  notes' :: jsstring
  formGuidance :: jsstring
  muscleGroup :: jsstring
  mainMuscle :: jsstring

record Session =
  Session_name :: jsstring
  exercises :: "ExerciseVM list"

text \<open>
  \<^verbatim>\<open>x || ''\<close> for a string that may be \<^verbatim>\<open>undefined\<close>, and \<^verbatim>\<open>n || 1\<close> for a number:
  the numbers that count as false are \<^verbatim>\<open>NaN\<close> and the two zeros.
\<close>

definition orEmpty :: "jsstring option \<Rightarrow> jsstring" where
  "orEmpty x = (case x of None \<Rightarrow> [] | Some s \<Rightarrow> s)"

definition orOne :: "number \<Rightarrow> number" where
  "orOne x = (if x = NaN \<or> x = NegZero \<or> x = Finite 0 then Finite 1 else x)"

definition exerciseVM :: "jsstring \<Rightarrow> CsvRow \<Rightarrow> nat \<Rightarrow> ExerciseVM" where
  "exerciseVM selected row index =
     \<lparr> id' = selected @ js ''-'' @ Exercise row @ js ''-'' @ showNat index,
       sessionName = selected,
       name = Exercise row,
       sets = orOne (parseInt (Sets row)),
       repsText = Reps_or_Time row,
       weightText = Weight row,
       notes' = orEmpty (Notes row),
       formGuidance = orEmpty (Form_Guidance row),
       muscleGroup = orEmpty (Muscle_Group row),
       mainMuscle = orEmpty (Main_Muscle row) \<rparr>"

definition buildTodaySessions :: "CsvRow list \<Rightarrow> jsstring list \<Rightarrow> Session list" where
  "buildTodaySessions parsedRows selectedSessions =
     map (\<lambda>selected.
            let sessionRows = filter (\<lambda>row. Day row = selected) parsedRows
            in \<lparr> Session_name = selected,
                 exercises = map (\<lambda>(row, index). exerciseVM selected row index)
                               (zip sessionRows [0 ..< length sessionRows]) \<rparr>)
         selectedSessions"


section \<open>Persistent store (unnamed/part_005, imported as storage)\<close>

text \<open>
  The values the store handles: the state document and its parts. An object is a finite
  map from property names to values; a property can hold \<^verbatim>\<open>undefined\<close>, which is not the
  same as the property being absent. A value is a tree: it has no cycle, on which
  \<^verbatim>\<open>JSON.stringify\<close> would throw.
\<close>

datatype jsval =
  JUndefined | JNull | JBool bool | JNum number | JStr jsstring
  | JArr "jsval list" | JObj "(jsstring, jsval) fmap"

text \<open>
  \<^verbatim>\<open>JSON.parse(JSON.stringify(v))\<close>: serialization leaves out the properties that hold
  \<^verbatim>\<open>undefined\<close>, writes \<^verbatim>\<open>null\<close> for an \<^verbatim>\<open>undefined\<close> array element, for \<^verbatim>\<open>NaN\<close> and
  for an infinity, and writes \<^verbatim>\<open>0\<close> for the negative zero.
\<close>

definition dropUndefined :: "(jsstring, jsval) fmap \<Rightarrow> (jsstring, jsval) fmap" where
  "dropUndefined m = fmfilter (\<lambda>k. fmlookup m k \<noteq> Some JUndefined) m"

definition jsonNumber :: "number \<Rightarrow> jsval" where
  "jsonNumber n =
     (case n of Finite i \<Rightarrow> JNum (Finite i) | NegZero \<Rightarrow> JNum (Finite 0) | _ \<Rightarrow> JNull)"

definition undefinedToNull :: "jsval \<Rightarrow> jsval" where
  "undefinedToNull v = (if v = JUndefined then JNull else v)"

primrec jsonify :: "jsval \<Rightarrow> jsval" where
  "jsonify JUndefined = JUndefined"
| "jsonify JNull = JNull"
| "jsonify (JBool b) = JBool b"
| "jsonify (JNum n) = jsonNumber n"
| "jsonify (JStr s) = JStr s"
| "jsonify (JArr xs) = JArr (map undefinedToNull (map jsonify xs))"
| "jsonify (JObj m) = JObj (dropUndefined (fmmap jsonify m))"

text \<open>
  A string held by \<^verbatim>\<open>localStorage\<close>, read through \<^verbatim>\<open>JSON.parse\<close>: \<open>Stringified v\<close> is the
  text \<^verbatim>\<open>JSON.stringify(v)\<close>, and \<open>Unparsable\<close> is any string that \<^verbatim>\<open>JSON.parse\<close>
  rejects (the empty string among them). \<^verbatim>\<open>JSON.stringify(undefined)\<close> is no string:
  \<^verbatim>\<open>setItem\<close> then stores the word \<^verbatim>\<open>undefined\<close>, which does not parse.
\<close>

datatype item = Unparsable | Stringified jsval

datatype js_error = SyntaxError | TypeError | QuotaExceededError

definition JSON_stringify :: "jsval \<Rightarrow> item" where
  "JSON_stringify v = (if v = JUndefined then Unparsable else Stringified v)"

definition JSON_parse :: "item \<Rightarrow> js_error + jsval" where
  "JSON_parse stored = (case stored of Unparsable \<Rightarrow> Inl SyntaxError | Stringified v \<Rightarrow> Inr (jsonify v))"

text \<open>
  \<^verbatim>\<open>localStorage\<close>: a store of strings by key. Every function of the store takes the
  storage and returns it. \<^verbatim>\<open>setItem\<close> throws a \<^verbatim>\<open>QuotaExceededError\<close> when the host has
  no room for the new value; whether it has is the host's decision, which the functions
  that write take as the parameter \<open>quota\<close>: \<open>quota st k v\<close> holds when the storage
  \<open>st\<close> accepts the string \<open>v\<close> under the key \<open>k\<close>.
\<close>

type_synonym localStorage = "jsstring \<rightharpoonup> item"

type_synonym quota = "localStorage \<Rightarrow> jsstring \<Rightarrow> item \<Rightarrow> bool"

definition getItem :: "localStorage \<Rightarrow> jsstring \<Rightarrow> item option" where
  "getItem st k = st k"

definition setItem :: "quota \<Rightarrow> localStorage \<Rightarrow> jsstring \<Rightarrow> item \<Rightarrow> js_error + localStorage" where
  "setItem quota st k v = (if quota st k v then Inr (st(k \<mapsto> v)) else Inl QuotaExceededError)"

definition removeItem :: "localStorage \<Rightarrow> jsstring \<Rightarrow> localStorage" where
  "removeItem st k = st(k := None)"

text \<open>
  Reading a property: a read on \<^verbatim>\<open>null\<close> or \<^verbatim>\<open>undefined\<close> throws a
  \<^verbatim>\<open>TypeError\<close>. On a boolean, a number, a string or an array, a name that is no built-in
  property (such as \<^verbatim>\<open>version\<close>, the only name the store reads) is \<^verbatim>\<open>undefined\<close>.
\<close>

definition getProp :: "jsval \<Rightarrow> jsstring \<Rightarrow> js_error + jsval" where
  "getProp v k =
     (case v of
        JUndefined \<Rightarrow> Inl TypeError
      | JNull \<Rightarrow> Inl TypeError
      | JObj m \<Rightarrow> Inr (case fmlookup m k of Some x \<Rightarrow> x | None \<Rightarrow> JUndefined)
      | _ \<Rightarrow> Inr JUndefined)"

definition field :: "jsval \<Rightarrow> jsstring \<Rightarrow> jsval" where
  "field v k = (case getProp v k of Inr x \<Rightarrow> x | Inl e \<Rightarrow> JUndefined)"

text \<open>The own enumerable properties that an object spread \<^verbatim>\<open>{...v}\<close> copies.\<close>

definition ownProps :: "jsval \<Rightarrow> (jsstring, jsval) fmap" where
  "ownProps v =
     (case v of
        JObj m \<Rightarrow> m
      | JArr xs \<Rightarrow> fmap_of_list (zip (map showNat [0 ..< length xs]) xs)
      | JStr s \<Rightarrow> fmap_of_list (zip (map showNat [0 ..< length s]) (map (\<lambda>c. JStr [c]) s))
      | _ \<Rightarrow> fmempty)"

definition STORAGE_KEY :: jsstring where
  "STORAGE_KEY = js ''motion_lite_state''"

definition SCHEMA_VERSION :: number where
  "SCHEMA_VERSION = Finite 1"

definition DEFAULT_STATE :: jsval where
  "DEFAULT_STATE =
     JObj (fmap_of_list
       [(js ''panel'', JStr (js ''landing'')),
        (js ''csvText'', JUndefined),
        (js ''parsedRows'', JUndefined),
        (js ''sessionNames'', JUndefined),
        (js ''selectedSessions'', JArr []),
        (js ''currentSessionIndex'', JNum (Finite 0)),
        (js ''currentExerciseIndex'', JObj fmempty),
        (js ''checkedSets'', JObj fmempty),
        (js ''sessionTemplates'', JObj fmempty),
        (js ''timers'', JObj (fmap_of_list
           [(js ''countdown'', JObj (fmap_of_list
               [(js ''remainingMs'', JNum (Finite 0)), (js ''initialMs'', JNum (Finite 0)),
                (js ''isRunning'', JBool False)])),
            (js ''stopwatch'', JObj (fmap_of_list
               [(js ''elapsedMs'', JNum (Finite 0)), (js ''isRunning'', JBool False)]))])),
        (js ''version'', JNum SCHEMA_VERSION),
        (js ''csvMeta'', JUndefined),
        (js ''sessionCompletion'', JObj fmempty)])"

definition clearAll :: "localStorage \<Rightarrow> localStorage" where
  "clearAll st = removeItem st STORAGE_KEY"

text \<open>
  \<^verbatim>\<open>getState\<close> returns the state and the storage it leaves. The \<^verbatim>\<open>catch\<close> branch is taken
  when \<^verbatim>\<open>JSON.parse\<close> throws and when the read of \<^verbatim>\<open>parsed.version\<close> throws.
\<close>

definition getState :: "localStorage \<Rightarrow> jsval \<times> localStorage" where
  "getState st =
     (case getItem st STORAGE_KEY of
        None \<Rightarrow> (DEFAULT_STATE, st)
      | Some stored \<Rightarrow>
          (case JSON_parse stored of
             Inl e \<Rightarrow> (DEFAULT_STATE, st)
           | Inr parsed \<Rightarrow>
               (case getProp parsed (js ''version'') of
                  Inl e \<Rightarrow> (DEFAULT_STATE, st)
                | Inr version \<Rightarrow>
                    if version \<noteq> JNum SCHEMA_VERSION then (DEFAULT_STATE, clearAll st)
                    else (JObj (ownProps DEFAULT_STATE ++\<^sub>f ownProps parsed), st))))"

text \<open>
  \<^verbatim>\<open>setState\<close>: when \<^verbatim>\<open>setItem\<close> throws, the \<^verbatim>\<open>catch\<close> branch logs the error and the
  storage stays as it was.
\<close>

definition setState :: "quota \<Rightarrow> localStorage \<Rightarrow> jsval \<Rightarrow> localStorage" where
  "setState quota st state =
     (case setItem quota st STORAGE_KEY (JSON_stringify state) of
        Inl e \<Rightarrow> st
      | Inr st' \<Rightarrow> st')"

definition updateState :: "quota \<Rightarrow> localStorage \<Rightarrow> (jsstring, jsval) fmap \<Rightarrow> localStorage" where
  "updateState quota st updates =
     (let (currentState, st1) = getState st;
          newState = JObj (ownProps currentState ++\<^sub>f updates)
      in setState quota st1 newState)"


section \<open>State action layer (storageReducer.ts)\<close>

text \<open>A \<^verbatim>\<open>CsvRow\<close> as a value: an optional field that is not set is an absent property.\<close>

definition optionalProp :: "jsstring \<Rightarrow> jsstring option \<Rightarrow> (jsstring \<times> jsval) list" where
  "optionalProp k x = (case x of None \<Rightarrow> [] | Some s \<Rightarrow> [(k, JStr s)])"

definition rowValue :: "CsvRow \<Rightarrow> jsval" where
  "rowValue row =
     JObj (fmap_of_list
       ([(js ''Day'', JStr (Day row)),
         (js ''Exercise'', JStr (Exercise row)),
         (js ''Sets'', JStr (Sets row)),
         (js ''Reps or Time'', JStr (Reps_or_Time row)),
         (js ''Weight'', JStr (Weight row))]
        @ optionalProp (js ''Notes'') (Notes row)
        @ optionalProp (js ''Form Guidance'') (Form_Guidance row)
        @ optionalProp (js ''Muscle Group'') (Muscle_Group row)
        @ optionalProp (js ''Main Muscle'') (Main_Muscle row)
        @ [(js ''Day Type'', JStr (Day_Type row))]))"

definition setCsvDataUpdates ::
  "jsstring \<Rightarrow> CsvRow list \<Rightarrow> jsstring list \<Rightarrow> (jsstring \<times> jsval) list" where
  "setCsvDataUpdates csvText parsedRows names =
     [(js ''csvText'', JStr csvText),
      (js ''parsedRows'', JArr (map rowValue parsedRows)),
      (js ''sessionNames'', JArr (map JStr names)),
      (js ''selectedSessions'', JArr []),
      (js ''currentSessionIndex'', JNum (Finite 0)),
      (js ''currentExerciseIndex'', JObj fmempty),
      (js ''checkedSets'', JObj fmempty)]"

definition setCsvData ::
  "quota \<Rightarrow> localStorage \<Rightarrow> jsstring \<Rightarrow> CsvRow list \<Rightarrow> jsstring list \<Rightarrow> localStorage" where
  "setCsvData quota st csvText parsedRows names =
     updateState quota st (fmap_of_list (setCsvDataUpdates csvText parsedRows names))"


section \<open>Terms of the specification\<close>

text \<open>
  The line that the round-trip property of the tokenizer starts from, in the words of the
  specification: the fields are joined with the delimiter, and a field that contains the
  delimiter or a double quote is wrapped in double quotes, its own double quotes
  doubled. The repository has no writer of such lines.
\<close>

definition needsQuotes :: "delimiter \<Rightarrow> jsstring \<Rightarrow> bool" where
  "needsQuotes delimiter f \<longleftrightarrow> delimChar delimiter \<in> set f \<or> 0x22 \<in> set f"

definition doubleQuotes :: "jsstring \<Rightarrow> jsstring" where
  "doubleQuotes f = concat (map (\<lambda>c. if c = 0x22 then [0x22, 0x22] else [c]) f)"

definition encodeField :: "delimiter \<Rightarrow> jsstring \<Rightarrow> jsstring" where
  "encodeField delimiter f =
     (if needsQuotes delimiter f then [0x22] @ doubleQuotes f @ [0x22] else f)"

definition encodeLine :: "delimiter \<Rightarrow> jsstring list \<Rightarrow> jsstring" where
  "encodeLine delimiter cells = joinWith [delimChar delimiter] (map (encodeField delimiter) cells)"

text \<open>
  What the tokenizer makes of an encoded field: a field written without quotes loses its
  carriage returns.
\<close>

definition decoded :: "delimiter \<Rightarrow> jsstring \<Rightarrow> jsstring" where
  "decoded d f = (if needsQuotes d f then f else filter (\<lambda>c. c \<noteq> 0x0D) f)"

text \<open>A string with no white space at either end.\<close>

definition noOuterWhiteSpace :: "jsstring \<Rightarrow> bool" where
  "noOuterWhiteSpace s \<longleftrightarrow> s = [] \<or> (\<not> isWhiteSpace (hd s) \<and> \<not> isWhiteSpace (last s))"

text \<open>A line of the document that the row loop admits into the output.\<close>

definition admitted :: "delimiter \<Rightarrow> (column \<rightharpoonup> nat) \<Rightarrow> jsstring \<Rightarrow> bool" where
  "admitted delimiter ix raw \<longleftrightarrow>
     trim raw \<noteq> [] \<and> (Day (rowOfLine delimiter ix raw) \<noteq> [] \<or> Exercise (rowOfLine delimiter ix raw) \<noteq> [])"

text \<open>
  The names of the required fields of a row that are empty, in the order \<open>Day\<close>,
  \<open>Exercise\<close>, \<open>Sets\<close>, \<open>Reps or Time\<close>, \<open>Weight\<close>.
\<close>

definition emptyRequiredFields :: "CsvRow \<Rightarrow> jsstring list" where
  "emptyRequiredFields row =
     map fst (filter (\<lambda>(fieldName, v). v = [])
       [(js ''Day'', Day row), (js ''Exercise'', Exercise row), (js ''Sets'', Sets row),
        (js ''Reps or Time'', Reps_or_Time row), (js ''Weight'', Weight row)])"

text \<open>
  The decimal numeral of a natural number: a non-empty string of the digits \<open>0\<close> to
  \<open>9\<close> that has no leading zero, unless it is the numeral \<open>0\<close>, and whose value is the
  number.
\<close>

definition decimalValue :: "jsstring \<Rightarrow> nat" where
  "decimalValue s = foldl (\<lambda>acc c. 10 * acc + (unat c - 48)) 0 s"

definition decimalNumeral :: "nat \<Rightarrow> jsstring \<Rightarrow> bool" where
  "decimalNumeral n s \<longleftrightarrow>
     s \<noteq> [] \<and> list_all (\<lambda>c. 0x30 \<le> c \<and> c \<le> 0x39) s \<and> (hd s = 0x30 \<longrightarrow> s = [0x30])
     \<and> decimalValue s = n"

text \<open>
  The diagnostics that the specification asks for the line \<open>raw\<close> at index \<open>lineNo\<close>,
  the header being the line at index 0: the one message \<open>Row N: missing <field list>\<close>
  with \<open>N = lineNo + 1\<close> when the line is admitted and a required field of its row is
  empty, and none otherwise.
\<close>

definition lineDiagnostics ::
  "delimiter \<Rightarrow> (column \<rightharpoonup> nat) \<Rightarrow> nat \<Rightarrow> jsstring \<Rightarrow> jsstring list" where
  "lineDiagnostics delimiter ix lineNo raw =
     (if admitted delimiter ix raw \<and> emptyRequiredFields (rowOfLine delimiter ix raw) \<noteq> []
      then [js ''Row '' @ showNat (lineNo + 1) @ js '': missing ''
            @ joinWith (js '', '') (emptyRequiredFields (rowOfLine delimiter ix raw))]
      else [])"

text \<open>
  A document-level diagnostic: the message for an empty text, the message for a text of
  fewer than two lines, or a message about missing headers.
\<close>

definition documentDiagnostic :: "jsstring \<Rightarrow> bool" where
  "documentDiagnostic e \<longleftrightarrow>
     e = emptyMessage \<or> e = tooFewLinesMessage
     \<or> take 26 e = js ''Missing required headers: ''"

text \<open>
  The header line of the specification's scenarios with its cells and the column indices
  they resolve to, and the same header without the \<open>Weight\<close> column (scenario B).
\<close>

definition stdHeader :: jsstring where
  "stdHeader = js ''Day,Exercise,Sets,Reps or Time,Weight''"

definition stdCells :: "jsstring list" where
  "stdCells = [js ''Day'', js ''Exercise'', js ''Sets'', js ''Reps or Time'', js ''Weight'']"

definition stdIndex :: "column \<rightharpoonup> nat" where
  "stdIndex = [ColDay \<mapsto> 0, ColExercise \<mapsto> 1, ColSets \<mapsto> 2, ColRepsOrTime \<mapsto> 3, ColWeight \<mapsto> 4]"



text \<open>Scenario A of the specification: a header line and three data lines.\<close>

definition scenarioA :: jsstring where
  "scenarioA =
     stdHeader @ [0x0A]
     @ js ''Day 1,Push-ups,3,12,Bodyweight'' @ [0x0A]
     @ js ''Day 1,Plank,3,60s,'' @ [0x0A]
     @ js ''Day 2,Squats,4,10,40kg''"


definition blankRows :: jsstring where
  "blankRows = stdHeader @ [0x0A] @ js ''  '' @ [0x0D, 0x0A]"

definition paddedDay :: jsstring where
  "paddedDay = stdHeader @ [0x0A] @ js '' Legs ,Squat,3,10,50kg''"

text \<open>
  A document with alias headers in mixed case and spacing, and lines that end in a
  carriage return and a line feed.
\<close>

definition aliasHeader :: jsstring where
  "aliasHeader = js ''date,  WORKOUT ,Set,reps_time:,LBS''"

definition aliasCells :: "jsstring list" where
  "aliasCells = [js ''date'', js ''WORKOUT'', js ''Set'', js ''reps_time:'', js ''LBS'']"

definition aliasDocument :: jsstring where
  "aliasDocument = aliasHeader @ [0x0D, 0x0A] @ js ''Mon,Rowing,3,10,20'' @ [0x0D, 0x0A]"

text \<open>
  A document of twelve lines: the header, a line with no sets and no weight, nine empty
  lines, and a line with no day.
\<close>

definition sparseDocument :: jsstring where
  "sparseDocument =
     stdHeader @ [0x0A]
     @ js ''Day 3,Lunges,,10,'' @ [0x0A]
     @ [0x0A, 0x0A, 0x0A, 0x0A, 0x0A, 0x0A, 0x0A, 0x0A, 0x0A]
     @ js '',Stretch,1,5m,none''"

text \<open>A document whose one data line has a negative number of sets.\<close>

definition negativeSets :: jsstring where
  "negativeSets = stdHeader @ [0x0A] @ js ''Day 1,Squats,-3,10,40kg''"

text \<open>
  JSON data: a value with no \<^verbatim>\<open>undefined\<close> in it and no number that is \<^verbatim>\<open>NaN\<close>, an
  infinity or the negative zero.
\<close>

primrec jsonData :: "jsval \<Rightarrow> bool" where
  "jsonData JUndefined = False"
| "jsonData JNull = True"
| "jsonData (JBool b) = True"
| "jsonData (JNum n) = (case n of Finite i \<Rightarrow> True | _ \<Rightarrow> False)"
| "jsonData (JStr s) = True"
| "jsonData (JArr xs) = list_all (\<lambda>b. b) (map jsonData xs)"
| "jsonData (JObj m) = fmpred (\<lambda>k b. b) (fmmap jsonData m)"

text \<open>The document under the storage key, as \<^verbatim>\<open>JSON.parse\<close> reads it.\<close>

definition storedDocument :: "localStorage \<Rightarrow> jsval option" where
  "storedDocument st =
     (case getItem st STORAGE_KEY of
        None \<Rightarrow> None
      | Some stored \<Rightarrow> (case JSON_parse stored of Inl e \<Rightarrow> None | Inr doc \<Rightarrow> Some doc))"

text \<open>
  A snapshot of the current version, the storage that holds it, and a storage that holds a
  document of version 0 (scenario D).
\<close>

definition sampleSnapshot :: "(jsstring, jsval) fmap" where
  "sampleSnapshot =
     fmap_of_list
       [(js ''version'', JNum (Finite 1)),
        (js ''panel'', JStr (js ''workout'')),
        (js ''csvText'', JUndefined),
        (js ''selectedSessions'', JArr [JStr (js ''Day 1'')])]"

text \<open>A snapshot that holds \<^verbatim>\<open>undefined\<close> in a field whose default is an object.\<close>

definition undefinedCompletion :: "(jsstring, jsval) fmap" where
  "undefinedCompletion =
     fmap_of_list [(js ''version'', JNum (Finite 1)), (js ''sessionCompletion'', JUndefined)]"

text \<open>A snapshot that holds \<^verbatim>\<open>NaN\<close> in a field.\<close>

definition nanIndex :: "(jsstring, jsval) fmap" where
  "nanIndex =
     fmap_of_list [(js ''version'', JNum (Finite 1)), (js ''currentSessionIndex'', JNum NaN)]"

text \<open>A host that accepts every write, and a host that has no room left.\<close>

definition unlimited :: quota where
  "unlimited st k v = True"

definition exhausted :: quota where
  "exhausted st k v = False"

text \<open>The storage accepts the document that \<open>setState\<close> writes.\<close>

definition writeAccepted :: "quota \<Rightarrow> localStorage \<Rightarrow> jsval \<Rightarrow> bool" where
  "writeAccepted quota st state \<longleftrightarrow> quota st STORAGE_KEY (JSON_stringify state)"

text \<open>
  The storage accepts the document that \<open>setCsvData\<close> writes: the state that \<open>getState\<close>
  reads with the updates of the call over it, written to the storage that \<open>getState\<close>
  leaves.
\<close>

definition setCsvDataAccepted ::
  "quota \<Rightarrow> localStorage \<Rightarrow> jsstring \<Rightarrow> CsvRow list \<Rightarrow> jsstring list \<Rightarrow> bool" where
  "setCsvDataAccepted quota st csvText parsedRows names \<longleftrightarrow>
     writeAccepted quota (snd (getState st))
       (JObj (ownProps (fst (getState st))
              ++\<^sub>f fmap_of_list (setCsvDataUpdates csvText parsedRows names)))"

text \<open>
  The field \<open>k\<close> of the state before a call: the field of the stored document when that
  document has the current schema version and has the field, and the field of the
  default document otherwise (when nothing is stored, when the stored string does not
  parse, and when the stored document has another version).
\<close>

definition priorField :: "localStorage \<Rightarrow> jsstring \<Rightarrow> jsval" where
  "priorField st k =
     (case storedDocument st of
        None \<Rightarrow> field DEFAULT_STATE k
      | Some prior \<Rightarrow>
          if field prior (js ''version'') = JNum SCHEMA_VERSION \<and> field prior k \<noteq> JUndefined
          then field prior k
          else field DEFAULT_STATE k)"

definition sampleStore :: localStorage where
  "sampleStore = setState unlimited Map.empty (JObj sampleSnapshot)"

definition oldStore :: localStorage where
  "oldStore =
     [STORAGE_KEY \<mapsto> Stringified (JObj (fmap_of_list
        [(js ''version'', JNum (Finite 0)), (js ''panel'', JStr (js ''workout''))]))]"

text \<open>The fields that \<open>setCsvData\<close> writes.\<close>

definition csvDataKeys :: "jsstring list" where
  "csvDataKeys = [js ''csvText'', js ''parsedRows'', js ''sessionNames'', js ''selectedSessions'',
                  js ''currentSessionIndex'', js ''currentExerciseIndex'', js ''checkedSets'']"


section \<open>Properties of the string functions\<close>

lemma trim_Nil [simp]: "trim [] = []"
  by (simp add: trim_def)

lemma dropWhile_snoc_keeps_last:
  "\<not> P x \<Longrightarrow> \<exists>ys. dropWhile P (zs @ [x]) = ys @ [x]"
  by (induction zs) auto

lemma rev_dropWhile_rev_keeps_head:
  assumes "\<not> P x"
  shows "\<exists>ys. rev (dropWhile P (rev (x # xs))) = x # ys"
proof -
  obtain ys where "dropWhile P (rev xs @ [x]) = ys @ [x]"
    using dropWhile_snoc_keeps_last[of P x "rev xs"] assms by blast
  then show ?thesis by simp
qed

lemma noOuterWhiteSpace_trim: "noOuterWhiteSpace (trim s)"
proof (cases "trim s = []")
  case True
  then show ?thesis by (simp add: noOuterWhiteSpace_def)
next
  case False
  define s1 where "s1 = dropWhile isWhiteSpace s"
  have t: "trim s = rev (dropWhile isWhiteSpace (rev s1))"
    by (simp add: trim_def s1_def)
  from False t have "s1 \<noteq> []" by auto
  then obtain x xs where s1: "s1 = x # xs" by (cases s1) auto
  have nx: "\<not> isWhiteSpace x"
    using hd_dropWhile[of isWhiteSpace s] s1 s1_def by (metis list.sel(1) list.simps(3))
  obtain ys where ys: "trim s = x # ys"
    using rev_dropWhile_rev_keeps_head[of isWhiteSpace x xs] nx t s1 by auto
  have "dropWhile isWhiteSpace (rev s1) \<noteq> []" using False t by auto
  then have "\<not> isWhiteSpace (hd (dropWhile isWhiteSpace (rev s1)))"
    by (rule hd_dropWhile)
  moreover have "last (trim s) = hd (dropWhile isWhiteSpace (rev s1))"
    using t False by (simp add: last_rev)
  ultimately show ?thesis using ys nx by (simp add: noOuterWhiteSpace_def)
qed

lemma trim_idem: "noOuterWhiteSpace s \<Longrightarrow> trim s = s"
proof (cases s)
  case Nil then show ?thesis by simp
next
  case (Cons x xs)
  assume "noOuterWhiteSpace s"
  then have a: "\<not> isWhiteSpace x" "\<not> isWhiteSpace (last s)" using Cons by (auto simp: noOuterWhiteSpace_def)
  have "rev s \<noteq> []" using Cons by simp
  then have "dropWhile isWhiteSpace (rev s) = rev s"
    using a(2) Cons by (cases "rev s") (auto simp: hd_rev [symmetric])
  then show ?thesis using a(1) Cons by (simp add: trim_def)
qed

lemma noOuterWhiteSpace_Nil: "noOuterWhiteSpace []"
  by (simp add: noOuterWhiteSpace_def)

lemma length_splitOn: "length (splitOn d s) = Suc (length (filter (\<lambda>c. c = d) s))"
  by (induction s) (auto split: list.splits)

lemma splitOn_short: "length (splitOn d s) < 2 \<longleftrightarrow> d \<notin> set s"
  by (auto simp: length_splitOn filter_empty_conv less_Suc_eq)

lemma splitOn_no_separator: "d \<notin> set a \<Longrightarrow> splitOn d a = [a]"
  by (induction a) auto

lemma splitOn_first_line: "d \<notin> set a \<Longrightarrow> splitOn d (a @ d # b) = a # splitOn d b"
  by (induction a) auto

lemma hd_splitOn_first_line: "d \<notin> set a \<Longrightarrow> hd (splitOn d (a @ d # b)) = a"
  by (simp add: splitOn_first_line)

lemma LF_stripLeadingBOM: "0x0A \<in> set (stripLeadingBOM s) \<longleftrightarrow> 0x0A \<in> set s"
  by (cases s) (auto simp: stripLeadingBOM_def)

lemma rawLines_short: "length (rawLines t) < 2 \<longleftrightarrow> 0x0A \<notin> set t"
  by (simp add: rawLines_def splitOn_short LF_stripLeadingBOM)

lemma of_char_word16_eq_iff: "(of_char c :: 16 word) = of_char d \<longleftrightarrow> c = d"
proof
  assume "(of_char c :: 16 word) = of_char d"
  then have "(of_nat (of_char c) :: 16 word) = of_nat (of_char d)"
    by (simp only: of_nat_of_char)
  then have "unat (of_nat (of_char c) :: 16 word) = unat (of_nat (of_char d) :: 16 word)"
    by simp
  moreover have "(of_char e :: nat) < 256" for e
    using of_char_mod_256[of e, where ?'a = nat] by (metis mod_less_divisor zero_less_numeral)
  then have "(of_char e :: nat) mod 2 ^ 16 = of_char e" for e
    by (simp add: order_less_trans[of _ 256])
  ultimately have "(of_char c :: nat) = of_char d"
    by (simp add: unat_of_nat)
  then show "c = d" by simp
qed simp


lemma digit_word:
  assumes "d < 10"
  shows "0x30 \<le> (of_nat (48 + d) :: 16 word)" "(of_nat (48 + d) :: 16 word) \<le> 0x39"
    "unat (of_nat (48 + d) :: 16 word) = 48 + d"
proof -
  show u: "unat (of_nat (48 + d) :: 16 word) = 48 + d"
    using assms by (simp only: unat_of_nat) simp
  show "0x30 \<le> (of_nat (48 + d) :: 16 word)"
    unfolding word_le_nat_alt u by simp
  show "(of_nat (48 + d) :: 16 word) \<le> 0x39"
    unfolding word_le_nat_alt u using assms by simp
qed

lemma decimalValue_snoc: "decimalValue (s @ [c]) = 10 * decimalValue s + (unat c - 48)"
  by (simp add: decimalValue_def)

lemma showNat_decimal: "decimalNumeral n (showNat n)"
proof (induction n rule: showNat.induct)
  case (1 n)
  show ?case
  proof (cases "n < 10")
    case True
    then show ?thesis
      using digit_word[of n]
      by (auto simp: showNat.simps[of n] decimalNumeral_def decimalValue_def)
  next
    case False
    then have ih: "decimalNumeral (n div 10) (showNat (n div 10))" using 1 by simp
    have d: "n mod 10 < 10" by simp
    have nz: "n div 10 \<noteq> 0" using False by simp
    have "hd (showNat (n div 10)) \<noteq> 0x30"
      using ih nz by (auto simp: decimalNumeral_def decimalValue_def)
    then show ?thesis
      using ih digit_word[OF d] False
      by (auto simp: showNat.simps[of n] decimalNumeral_def decimalValue_snoc)
  qed
qed

lemma showNat_examples: "showNat 12 = js ''12''" "showNat 3 = js ''3''" "showNat 2 = js ''2''"
  by (simp_all add: showNat.simps js_def)


section \<open>The tokenizer on encoded lines\<close>

lemma delimChar_not_quote: "delimChar d \<noteq> 0x22"
  by (cases d) simp_all

lemma delimChar_not_CR: "delimChar d \<noteq> 0x0D"
  by (cases d) simp_all

lemma splitLoop_plain:
  "\<lbrakk>d \<notin> set f; 0x22 \<notin> set f\<rbrakk>
   \<Longrightarrow> splitLoop d False cur out (f @ rest)
       = splitLoop d False (cur @ filter (\<lambda>c. c \<noteq> 0x0D) f) out rest"
  by (induction f arbitrary: cur) auto

lemma splitLoop_quoted:
  "rest = [] \<or> hd rest \<noteq> 0x22
   \<Longrightarrow> splitLoop d True cur out (doubleQuotes f @ 0x22 # rest) = splitLoop d False (cur @ f) out rest"
  by (induction f arbitrary: cur) (auto simp: doubleQuotes_def)

lemma splitLoop_encodeField:
  assumes "rest = [] \<or> hd rest \<noteq> 0x22"
  shows "splitLoop (delimChar d) False [] out (encodeField d f @ rest)
         = splitLoop (delimChar d) False (decoded d f) out rest"
proof (cases "needsQuotes d f")
  case True
  then show ?thesis using assms splitLoop_quoted[of rest "delimChar d" "[]" out f]
    by (simp add: encodeField_def decoded_def)
next
  case False
  then show ?thesis using splitLoop_plain[of "delimChar d" f "[]" out rest]
    by (simp add: encodeField_def needsQuotes_def decoded_def)
qed

lemma splitLoop_encodeLine:
  "fs \<noteq> [] \<Longrightarrow> splitLoop (delimChar d) False [] out (encodeLine d fs) = out @ map (decoded d) fs"
proof (induction fs arbitrary: out)
  case Nil
  then show ?case by simp
next
  case (Cons f fs)
  show ?case
  proof (cases fs)
    case Nil
    then show ?thesis
      using splitLoop_encodeField[of "[]" d out f] by (simp add: encodeLine_def)
  next
    case (Cons g gs)
    have "splitLoop (delimChar d) False [] out (encodeLine d (f # fs))
          = splitLoop (delimChar d) False [] out (encodeField d f @ delimChar d # encodeLine d fs)"
      using Cons by (simp add: encodeLine_def)
    also have "\<dots> = splitLoop (delimChar d) False (decoded d f) out (delimChar d # encodeLine d fs)"
      using splitLoop_encodeField[of "delimChar d # encodeLine d fs" d out f]
      by (simp add: delimChar_not_quote)
    also have "\<dots> = splitLoop (delimChar d) False [] (out @ [decoded d f]) (encodeLine d fs)"
      by (simp add: delimChar_not_quote)
    also have "\<dots> = (out @ [decoded d f]) @ map (decoded d) fs"
      using Cons.IH[of "out @ [decoded d f]"] Cons by simp
    finally show ?thesis by simp
  qed
qed

lemma splitCsvLine_encodeLine:
  "fs \<noteq> [] \<Longrightarrow> splitCsvLine (encodeLine d fs) d = map (decoded d) fs"
  using splitLoop_encodeLine[of fs d "[]"] by (simp add: splitCsvLine_def)

lemma splitCsvLine_encodeLine_Nil: "splitCsvLine (encodeLine d []) d = [[]]"
  by (simp add: splitCsvLine_def encodeLine_def)

lemma decoded_id: "decoded d f = f \<longleftrightarrow> (\<not> needsQuotes d f \<longrightarrow> 0x0D \<notin> set f)"
  by (auto simp: decoded_def filter_id_conv)

text \<open>
  Claim C3, as amended. Tokenizing the line built from a sequence of fields gives the
  sequence back exactly when the sequence is not empty and every field written without
  quotes (one that contains neither the delimiter nor a double quote) contains no
  carriage return. The empty sequence gives the empty line, which tokenizes to one empty
  field; a carriage return outside quotes is dropped by the tokenizer.
\<close>

theorem splitCsvLine_round_trip:
  "splitCsvLine (encodeLine d fs) d = fs
   \<longleftrightarrow> fs \<noteq> [] \<and> (\<forall>f \<in> set fs. \<not> needsQuotes d f \<longrightarrow> 0x0D \<notin> set f)"
proof (cases "fs = []")
  case True
  then show ?thesis by (simp add: splitCsvLine_encodeLine_Nil)
next
  case False
  have "map (decoded d) fs = fs \<longleftrightarrow> (\<forall>f \<in> set fs. decoded d f = f)"
    by (induction fs) auto
  then show ?thesis using False by (simp add: splitCsvLine_encodeLine decoded_id)
qed

theorem splitCsvLine_round_trip_witness:
  "splitCsvLine (encodeLine Comma [js ''Squats, Barbell'', js ''3'', []]) Comma
   = [js ''Squats, Barbell'', js ''3'', []]"
  using splitCsvLine_round_trip[of Comma "[js ''Squats, Barbell'', js ''3'', []]"]
  by (simp add: needsQuotes_def js_def)

theorem splitCsvLine_round_trip_counterexample:
  "splitCsvLine (encodeLine Comma [[0x61, 0x0D, 0x62]]) Comma \<noteq> [[0x61, 0x0D, 0x62]]
   \<and> splitCsvLine (encodeLine Comma []) Comma \<noteq> []"
  by (simp add: splitCsvLine_def encodeLine_def encodeField_def needsQuotes_def)


section \<open>The row loop\<close>

lemma admitted_iff:
  "admitted d ix raw \<longleftrightarrow>
     \<not> (raw = [] \<or> trim raw = [])
     \<and> \<not> (Day (rowOfLine d ix raw) = [] \<and> Exercise (rowOfLine d ix raw) = [])"
  by (auto simp: admitted_def)

lemma rows_processLine:
  "rows (processLine d ix n raw acc)
   = rows acc @ (if admitted d ix raw then [rowOfLine d ix raw] else [])"
  by (simp add: processLine_def admitted_iff Let_def)

lemma canonName_missingInRow: "map canonName (missingInRow row) = emptyRequiredFields row"
  by (simp add: missingInRow_def required_def emptyRequiredFields_def)

lemma missingInRow_Nil_iff: "missingInRow row = [] \<longleftrightarrow> emptyRequiredFields row = []"
  by (simp add: canonName_missingInRow[symmetric])

lemma rowMessage_text:
  "rowMessage n (missingInRow row)
   = js ''Row '' @ showNat n @ js '': missing '' @ joinWith (js '', '') (emptyRequiredFields row)"
  by (simp add: rowMessage_def canonName_missingInRow)

lemma errors_processLine:
  "errors (processLine d ix n raw acc) = errors acc @ lineDiagnostics d ix n raw"
  by (simp add: processLine_def admitted_iff lineDiagnostics_def Let_def rowMessage_text
      missingInRow_Nil_iff)

lemma sessionNames_processLine:
  "sessionNames (processLine d ix n raw acc)
   = (if admitted d ix raw \<and> Day (rowOfLine d ix raw) \<noteq> []
      then setAdd (Day (rowOfLine d ix raw)) (sessionNames acc)
      else sessionNames acc)"
  by (simp add: processLine_def admitted_iff Let_def)

lemma rows_rowLoop:
  "rows (rowLoop d ix n ls acc)
   = rows acc @ map (rowOfLine d ix) (filter (admitted d ix) ls)"
  by (induction ls arbitrary: n acc) (simp_all add: rows_processLine)

lemma errors_rowLoop:
  "errors (rowLoop d ix n ls acc)
   = errors acc @ concat (map (\<lambda>i. lineDiagnostics d ix (n + i) (ls ! i)) [0 ..< length ls])"
proof (induction ls arbitrary: n acc)
  case Nil
  then show ?case by simp
next
  case (Cons raw rest)
  have "map (\<lambda>i. lineDiagnostics d ix (n + i) ((raw # rest) ! i)) [0 ..< length (raw # rest)]
        = lineDiagnostics d ix n raw
          # map (\<lambda>i. lineDiagnostics d ix (Suc n + i) (rest ! i)) [0 ..< length rest]"
    by (simp add: upt_conv_Cons map_Suc_upt[symmetric] del: upt_Suc)
  then show ?case
    by (simp add: Cons.IH errors_processLine del: upt_Suc)
qed

lemma set_setAdd: "set (setAdd x xs) = insert x (set xs)"
  by (auto simp: setAdd_def)

lemma distinct_setAdd: "distinct xs \<Longrightarrow> distinct (setAdd x xs)"
  by (simp add: setAdd_def)

lemma set_sessionNames_rowLoop:
  "set (sessionNames (rowLoop d ix n ls acc))
   = set (sessionNames acc)
     \<union> set (filter (\<lambda>s. s \<noteq> []) (map Day (map (rowOfLine d ix) (filter (admitted d ix) ls))))"
  by (induction ls arbitrary: n acc) (auto simp: sessionNames_processLine set_setAdd)

lemma distinct_sessionNames_rowLoop:
  "distinct (sessionNames acc) \<Longrightarrow> distinct (sessionNames (rowLoop d ix n ls acc))"
  by (induction ls arbitrary: n acc) (simp_all add: sessionNames_processLine distinct_setAdd)


section \<open>The branches of the importer\<close>

lemma parseCsv_empty:
  "trim t = [] \<Longrightarrow> parseCsv lower t = \<lparr> rows = [], sessionNames = [], errors = [emptyMessage] \<rparr>"
  by (simp add: parseCsv_def)

lemma parseCsv_too_few:
  "\<lbrakk>trim t \<noteq> []; 0x0A \<notin> set t\<rbrakk>
   \<Longrightarrow> parseCsv lower t = \<lparr> rows = [], sessionNames = [], errors = [tooFewLinesMessage] \<rparr>"
  using rawLines_short[of t] by (auto simp: parseCsv_def)

lemma parseCsv_missing:
  "\<lbrakk>trim t \<noteq> []; 0x0A \<in> set t; missingRequired lower (headerCells t) \<noteq> []\<rbrakk>
   \<Longrightarrow> parseCsv lower t
       = \<lparr> rows = [], sessionNames = [],
           errors = [missingHeadersMessage (missingRequired lower (headerCells t)) (headerCells t)] \<rparr>"
  using rawLines_short[of t] by (auto simp: parseCsv_def)

lemma parseCsv_rows:
  "\<lbrakk>trim t \<noteq> []; 0x0A \<in> set t; missingRequired lower (headerCells t) = []\<rbrakk>
   \<Longrightarrow> parseCsv lower t
       = (let r = rowLoop (detectDelimiter (headerLine t)) (indexOf lower (headerCells t)) 1
                    (tl (rawLines t)) \<lparr> rows = [], sessionNames = [], errors = [] \<rparr>
          in r \<lparr> sessionNames := sort (sessionNames r) \<rparr>)"
  using rawLines_short[of t] by (auto simp: parseCsv_def)

lemma rows_parseCsv:
  assumes "trim t \<noteq> []" "0x0A \<in> set t" "missingRequired lower (headerCells t) = []"
  shows "rows (parseCsv lower t)
         = map (rowOfLine (detectDelimiter (headerLine t)) (indexOf lower (headerCells t)))
             (filter (admitted (detectDelimiter (headerLine t)) (indexOf lower (headerCells t)))
                (tl (rawLines t)))"
  by (simp add: parseCsv_rows[OF assms] Let_def rows_rowLoop)

lemma errors_parseCsv:
  assumes "trim t \<noteq> []" "0x0A \<in> set t" "missingRequired lower (headerCells t) = []"
  shows "errors (parseCsv lower t)
         = concat (map (\<lambda>i. lineDiagnostics (detectDelimiter (headerLine t))
                                (indexOf lower (headerCells t)) i (rawLines t ! i))
                     [1 ..< length (rawLines t)])"
proof -
  have ne: "rawLines t \<noteq> []" using assms(2) rawLines_short[of t] by auto
  have "map (\<lambda>i. lineDiagnostics (detectDelimiter (headerLine t))
                   (indexOf lower (headerCells t)) (1 + i) (tl (rawLines t) ! i))
          [0 ..< length (tl (rawLines t))]
        = map (\<lambda>i. lineDiagnostics (detectDelimiter (headerLine t))
                   (indexOf lower (headerCells t)) i (rawLines t ! i))
          [1 ..< length (rawLines t)]"
  proof -
    have "[1 ..< length (rawLines t)] = map Suc [0 ..< length (tl (rawLines t))]"
      using ne by (simp add: map_Suc_upt)
    then show ?thesis
      by (simp add: nth_tl del: upt_Suc)
  qed
  then show ?thesis
    by (simp add: parseCsv_rows[OF assms] Let_def errors_rowLoop)
qed

lemma sessionNames_parseCsv:
  assumes "trim t \<noteq> []" "0x0A \<in> set t" "missingRequired lower (headerCells t) = []"
  shows "sessionNames (parseCsv lower t)
         = sorted_list_of_set (set (filter (\<lambda>s. s \<noteq> []) (map Day (rows (parseCsv lower t)))))"
proof -
  let ?r = "rowLoop (detectDelimiter (headerLine t)) (indexOf lower (headerCells t)) 1
              (tl (rawLines t)) \<lparr> rows = [], sessionNames = [], errors = [] \<rparr>"
  have d: "distinct (sessionNames ?r)"
    by (rule distinct_sessionNames_rowLoop) simp
  have s: "set (sessionNames ?r) = set (filter (\<lambda>s. s \<noteq> []) (map Day (rows (parseCsv lower t))))"
    by (simp add: set_sessionNames_rowLoop rows_parseCsv[OF assms])
  have "sessionNames (parseCsv lower t) = sort (sessionNames ?r)"
    by (simp add: parseCsv_rows[OF assms] Let_def)
  also have "\<dots> = sort (remdups (sessionNames ?r))"
    using d by (simp add: distinct_remdups_id)
  also have "\<dots> = sorted_list_of_set (set (sessionNames ?r))"
    by (simp add: sorted_list_of_set_sort_remdups)
  finally show ?thesis by (simp only: s)
qed

lemma rowMessage_not_documentDiagnostic: "\<not> documentDiagnostic (rowMessage n ks)"
  by (simp add: documentDiagnostic_def rowMessage_def emptyMessage_def tooFewLinesMessage_def js_def)

lemma documentDiagnostic_tooFew: "documentDiagnostic tooFewLinesMessage"
  by (simp add: documentDiagnostic_def)

lemma documentDiagnostic_empty: "documentDiagnostic emptyMessage"
  by (simp add: documentDiagnostic_def)

lemma documentDiagnostic_missingHeaders: "documentDiagnostic (missingHeadersMessage ms cells)"
  by (simp add: documentDiagnostic_def missingHeadersMessage_def js_def)

lemma missingHeadersMessage_not_tooFew: "missingHeadersMessage ms cells \<noteq> tooFewLinesMessage"
  by (simp add: missingHeadersMessage_def tooFewLinesMessage_def js_def)

lemma emptyMessage_not_tooFew: "emptyMessage \<noteq> tooFewLinesMessage"
  by (simp add: emptyMessage_def tooFewLinesMessage_def js_def)

lemma lineDiagnostics_rowMessage:
  "e \<in> set (lineDiagnostics d ix n raw) \<Longrightarrow> \<exists>m ks. e = rowMessage m ks"
  unfolding lineDiagnostics_def rowMessage_text[symmetric] by (auto split: if_splits)

lemma errors_parseCsv_rowMessage:
  assumes "trim t \<noteq> []" "0x0A \<in> set t" "missingRequired lower (headerCells t) = []"
    and "e \<in> set (errors (parseCsv lower t))"
  shows "\<exists>m ks. e = rowMessage m ks"
  using assms(4) unfolding errors_parseCsv[OF assms(1-3)]
  by (auto dest: lineDiagnostics_rowMessage)


section \<open>The importer on the documents of the scenarios\<close>


subsection \<open>Header resolution\<close>

lemma indexOf_apply:
  "indexOf lower cells k
   = findIndex lower (headerIndexByNorm lower cells) (canonName k # the (map_of headerMap k))"
  by (cases k) (simp_all add: indexOf_def headerMap_def)

lemmas eval_strings =
  js_def trim_def isWhiteSpace_def toLowerCaseASCII_def normHeader_def

lemma headerCells_from_line:
  "headerCells t
   = map trim (splitCsvLine (stripTrailingCR (hd (rawLines t)))
                 (detectDelimiter (stripTrailingCR (hd (rawLines t)))))"
  by (simp add: headerCells_def headerLine_def)

lemma headerIndexByNorm_stdCells:
  "headerIndexByNorm toLowerCaseASCII stdCells
   = [js ''day'' \<mapsto> 0, js ''exercise'' \<mapsto> 1, js ''sets'' \<mapsto> 2, js ''reps or time'' \<mapsto> 3,
      js ''weight'' \<mapsto> 4]"
  apply (simp add: headerIndexByNorm_def stdCells_def eval_strings)
  apply (simp only: eval_nat_numeral BitM.simps One_nat_def)
  done

lemma indexOf_stdCells: "indexOf toLowerCaseASCII stdCells k = stdIndex k"
  apply (simp only: indexOf_apply headerIndexByNorm_stdCells)
  apply (cases k)
  apply (simp_all add: headerMap_def stdIndex_def eval_strings)
  done

lemma missingRequired_stdCells: "missingRequired toLowerCaseASCII stdCells = []"
  by (simp add: missingRequired_def required_def indexOf_stdCells stdIndex_def)

lemma stdHeader_line:
  "stripTrailingCR stdHeader = stdHeader" "detectDelimiter stdHeader = Comma"
  "map trim (splitCsvLine stdHeader Comma) = stdCells" "0x0A \<notin> set stdHeader"
  "stripLeadingBOM (stdHeader @ rest) = stdHeader @ rest"
  "trim (stdHeader @ rest) \<noteq> []"
  by (simp_all add: stdHeader_def stdCells_def stripTrailingCR_def detectDelimiter_def
      splitCsvLine_def stripLeadingBOM_def eval_strings)

lemma rawLines_stdHeader: "rawLines (stdHeader @ 0x0A # rest) = stdHeader # splitOn 0x0A rest"
  using stdHeader_line(5)[of "0x0A # rest"] by (simp add: rawLines_def splitOn_first_line stdHeader_line(4))

lemma headerCells_stdHeader: "headerCells (stdHeader @ 0x0A # rest) = stdCells"
  by (simp add: headerCells_from_line rawLines_stdHeader stdHeader_line)

lemma headerLine_stdHeader: "headerLine (stdHeader @ 0x0A # rest) = stdHeader"
  by (simp add: headerLine_def rawLines_stdHeader stdHeader_line)

lemma headerCells_stdHeader_only: "headerCells stdHeader = stdCells"
  using stdHeader_line(5)[of "[]"]
  by (simp add: headerCells_from_line rawLines_def splitOn_no_separator stdHeader_line)








lemma headerIndexByNorm_aliasCells:
  "headerIndexByNorm toLowerCaseASCII aliasCells
   = [js ''date'' \<mapsto> 0, js ''workout'' \<mapsto> 1, js ''set'' \<mapsto> 2, js ''reps time'' \<mapsto> 3,
      js ''lbs'' \<mapsto> 4]"
  apply (simp add: headerIndexByNorm_def aliasCells_def eval_strings)
  apply (simp only: eval_nat_numeral BitM.simps One_nat_def)
  done

lemma indexOf_aliasCells: "indexOf toLowerCaseASCII aliasCells k = stdIndex k"
  apply (simp only: indexOf_apply headerIndexByNorm_aliasCells)
  apply (cases k)
  apply (simp_all add: headerMap_def stdIndex_def eval_strings)
  done

lemma missingRequired_aliasCells: "missingRequired toLowerCaseASCII aliasCells = []"
  by (simp add: missingRequired_def required_def indexOf_aliasCells stdIndex_def)

lemma aliasDocument_lines:
  "rawLines aliasDocument = [aliasHeader @ [0x0D], js ''Mon,Rowing,3,10,20'' @ [0x0D], []]"
  by (simp add: aliasDocument_def aliasHeader_def rawLines_def stripLeadingBOM_def js_def
     )

lemma aliasDocument_header:
  "headerLine aliasDocument = aliasHeader" "detectDelimiter aliasHeader = Comma"
  "map trim (splitCsvLine aliasHeader Comma) = aliasCells"
  "trim aliasDocument \<noteq> []" "0x0A \<in> set aliasDocument"
  by (simp_all add: headerLine_def aliasDocument_lines stripTrailingCR_def)
     (simp_all add: aliasHeader_def aliasCells_def aliasDocument_def detectDelimiter_def
       splitCsvLine_def eval_strings)

lemma headerCells_aliasDocument: "headerCells aliasDocument = aliasCells"
  by (simp only: headerCells_def aliasDocument_header)

lemma aliasDocument_guards:
  "trim aliasDocument \<noteq> []" "0x0A \<in> set aliasDocument"
  "missingRequired toLowerCaseASCII (headerCells aliasDocument) = []"
  by (simp_all add: aliasDocument_header headerCells_aliasDocument missingRequired_aliasCells)


subsection \<open>Rows\<close>

lemma parseCsv_stdHeader:
  "parseCsv toLowerCaseASCII (stdHeader @ 0x0A # rest)
   = (let r = rowLoop Comma (indexOf toLowerCaseASCII stdCells) 1 (splitOn 0x0A rest)
                \<lparr> rows = [], sessionNames = [], errors = [] \<rparr>
      in r \<lparr> sessionNames := sort (sessionNames r) \<rparr>)"
proof -
  have "parseCsv toLowerCaseASCII (stdHeader @ 0x0A # rest)
        = (let r = rowLoop (detectDelimiter (headerLine (stdHeader @ 0x0A # rest)))
                     (indexOf toLowerCaseASCII (headerCells (stdHeader @ 0x0A # rest))) 1
                     (tl (rawLines (stdHeader @ 0x0A # rest)))
                     \<lparr> rows = [], sessionNames = [], errors = [] \<rparr>
           in r \<lparr> sessionNames := sort (sessionNames r) \<rparr>)"
    by (rule parseCsv_rows) (simp_all add: stdHeader_line headerCells_stdHeader missingRequired_stdCells)
  then show ?thesis
    by (simp only: headerLine_stdHeader headerCells_stdHeader rawLines_stdHeader stdHeader_line list.sel)
qed

lemmas eval_row =
  processLine_def rowOfLine_def makeRow_def getCell_def indexOf_stdCells stdIndex_def
  splitCsvLine_def stripTrailingCR_def missingInRow_def required_def Let_def eval_strings

lemma processLine_pushups:
  "processLine Comma (indexOf toLowerCaseASCII stdCells) n (js ''Day 1,Push-ups,3,12,Bodyweight'') acc
   = \<lparr> rows = rows acc @
         [\<lparr> Day = js ''Day 1'', Exercise = js ''Push-ups'', Sets = js ''3'',
            Reps_or_Time = js ''12'', Weight = js ''Bodyweight'', Notes = Some [],
            Form_Guidance = Some [], Muscle_Group = Some [], Main_Muscle = Some [],
            Day_Type = [] \<rparr>],
       sessionNames = setAdd (js ''Day 1'') (sessionNames acc),
       errors = errors acc \<rparr>"
  by (simp add: eval_row)

lemma processLine_plank:
  "processLine Comma (indexOf toLowerCaseASCII stdCells) n (js ''Day 1,Plank,3,60s,'') acc
   = \<lparr> rows = rows acc @
         [\<lparr> Day = js ''Day 1'', Exercise = js ''Plank'', Sets = js ''3'',
            Reps_or_Time = js ''60s'', Weight = [], Notes = Some [],
            Form_Guidance = Some [], Muscle_Group = Some [], Main_Muscle = Some [],
            Day_Type = [] \<rparr>],
       sessionNames = setAdd (js ''Day 1'') (sessionNames acc),
       errors = errors acc @ [rowMessage (n + 1) [ColWeight]] \<rparr>"
  by (simp add: eval_row)

lemma processLine_squats:
  "processLine Comma (indexOf toLowerCaseASCII stdCells) n (js ''Day 2,Squats,4,10,40kg'') acc
   = \<lparr> rows = rows acc @
         [\<lparr> Day = js ''Day 2'', Exercise = js ''Squats'', Sets = js ''4'',
            Reps_or_Time = js ''10'', Weight = js ''40kg'', Notes = Some [],
            Form_Guidance = Some [], Muscle_Group = Some [], Main_Muscle = Some [],
            Day_Type = [] \<rparr>],
       sessionNames = setAdd (js ''Day 2'') (sessionNames acc),
       errors = errors acc \<rparr>"
  by (simp add: eval_row)

lemma scenarioA_lines:
  "scenarioA = stdHeader @ 0x0A # (js ''Day 1,Push-ups,3,12,Bodyweight'' @ 0x0A # js ''Day 1,Plank,3,60s,'' @ 0x0A # js ''Day 2,Squats,4,10,40kg'')"
  by (simp add: scenarioA_def)

lemma splitOn_scenarioA:
  "splitOn 0x0A (js ''Day 1,Push-ups,3,12,Bodyweight'' @ 0x0A # js ''Day 1,Plank,3,60s,'' @ 0x0A # js ''Day 2,Squats,4,10,40kg'')
   = [js ''Day 1,Push-ups,3,12,Bodyweight'', js ''Day 1,Plank,3,60s,'', js ''Day 2,Squats,4,10,40kg'']"
  by (simp add: js_def)

lemma rowMessage_3_Weight: "rowMessage (Suc (Suc (Suc 0))) [ColWeight] = js ''Row 3: missing Weight''"
  by (simp add: rowMessage_def js_def numeral_3_eq_3[symmetric] showNat.simps)

lemma sort_days: "sort (setAdd (js ''Day 2'') (setAdd (js ''Day 1'') (setAdd (js ''Day 1'') [])))
  = [js ''Day 1'', js ''Day 2'']"
  by (simp add: setAdd_def js_def)

lemma parseCsv_scenarioA:
  "parseCsv toLowerCaseASCII scenarioA
   = \<lparr> rows =
         [\<lparr> Day = js ''Day 1'', Exercise = js ''Push-ups'', Sets = js ''3'',
            Reps_or_Time = js ''12'', Weight = js ''Bodyweight'', Notes = Some [],
            Form_Guidance = Some [], Muscle_Group = Some [], Main_Muscle = Some [],
            Day_Type = [] \<rparr>,
          \<lparr> Day = js ''Day 1'', Exercise = js ''Plank'', Sets = js ''3'',
            Reps_or_Time = js ''60s'', Weight = [], Notes = Some [],
            Form_Guidance = Some [], Muscle_Group = Some [], Main_Muscle = Some [],
            Day_Type = [] \<rparr>,
          \<lparr> Day = js ''Day 2'', Exercise = js ''Squats'', Sets = js ''4'',
            Reps_or_Time = js ''10'', Weight = js ''40kg'', Notes = Some [],
            Form_Guidance = Some [], Muscle_Group = Some [], Main_Muscle = Some [],
            Day_Type = [] \<rparr>],
       sessionNames = [js ''Day 1'', js ''Day 2''],
       errors = [js ''Row 3: missing Weight''] \<rparr>"
  apply (simp only: scenarioA_lines parseCsv_stdHeader splitOn_scenarioA)
  apply (simp only: rowLoop.simps processLine_pushups processLine_plank processLine_squats Let_def)
  apply (simp add: sort_days rowMessage_3_Weight)
  done

lemma scenarioA_guards:
  "trim scenarioA \<noteq> []" "0x0A \<in> set scenarioA"
  "missingRequired toLowerCaseASCII (headerCells scenarioA) = []"
  by (simp_all add: scenarioA_lines stdHeader_line headerCells_stdHeader missingRequired_stdCells)

lemma rawLines_scenarioA:
  "rawLines scenarioA
   = [stdHeader, js ''Day 1,Push-ups,3,12,Bodyweight'', js ''Day 1,Plank,3,60s,'',
      js ''Day 2,Squats,4,10,40kg'']"
  by (simp only: scenarioA_lines rawLines_stdHeader splitOn_scenarioA)

lemma rowOfLine_plank:
  "rowOfLine Comma (indexOf toLowerCaseASCII stdCells) (js ''Day 1,Plank,3,60s,'')
   = \<lparr> Day = js ''Day 1'', Exercise = js ''Plank'', Sets = js ''3'',
       Reps_or_Time = js ''60s'', Weight = [], Notes = Some [],
       Form_Guidance = Some [], Muscle_Group = Some [], Main_Muscle = Some [],
       Day_Type = [] \<rparr>"
  by (simp add: eval_row)

lemma plank_facts:
  "admitted Comma (indexOf toLowerCaseASCII stdCells) (js ''Day 1,Plank,3,60s,'')"
  "missingInRow (rowOfLine Comma (indexOf toLowerCaseASCII stdCells) (js ''Day 1,Plank,3,60s,''))
   = [ColWeight]"
  apply (simp_all only: admitted_def rowOfLine_plank)
  apply (simp_all add: missingInRow_def required_def eval_strings)
  done

lemma plank_empty:
  "emptyRequiredFields (rowOfLine Comma (indexOf toLowerCaseASCII stdCells) (js ''Day 1,Plank,3,60s,''))
   = [js ''Weight'']"
  by (simp only: rowOfLine_plank) (simp add: emptyRequiredFields_def js_def)

lemma processLine_lunges:
  "processLine Comma (indexOf toLowerCaseASCII stdCells) n (js ''Day 3,Lunges,,10,'') acc
   = \<lparr> rows = rows acc @
         [\<lparr> Day = js ''Day 3'', Exercise = js ''Lunges'', Sets = [],
            Reps_or_Time = js ''10'', Weight = [], Notes = Some [],
            Form_Guidance = Some [], Muscle_Group = Some [], Main_Muscle = Some [],
            Day_Type = [] \<rparr>],
       sessionNames = setAdd (js ''Day 3'') (sessionNames acc),
       errors = errors acc @ [rowMessage (n + 1) [ColSets, ColWeight]] \<rparr>"
  by (simp add: eval_row)

lemma processLine_stretch:
  "processLine Comma (indexOf toLowerCaseASCII stdCells) n (js '',Stretch,1,5m,none'') acc
   = \<lparr> rows = rows acc @
         [\<lparr> Day = [], Exercise = js ''Stretch'', Sets = js ''1'',
            Reps_or_Time = js ''5m'', Weight = js ''none'', Notes = Some [],
            Form_Guidance = Some [], Muscle_Group = Some [], Main_Muscle = Some [],
            Day_Type = [] \<rparr>],
       sessionNames = sessionNames acc,
       errors = errors acc @ [rowMessage (n + 1) [ColDay]] \<rparr>"
  by (simp add: eval_row)

lemma processLine_empty: "processLine d ix n [] acc = acc"
  by (simp add: processLine_def)

lemma sparseDocument_lines:
  "sparseDocument = stdHeader @ 0x0A # (js ''Day 3,Lunges,,10,'' @ 0x0A # 0x0A # 0x0A # 0x0A # 0x0A # 0x0A # 0x0A # 0x0A # 0x0A # 0x0A # js '',Stretch,1,5m,none'')"
  by (simp add: sparseDocument_def)

lemma splitOn_sparseDocument:
  "splitOn 0x0A (js ''Day 3,Lunges,,10,'' @ 0x0A # 0x0A # 0x0A # 0x0A # 0x0A # 0x0A # 0x0A # 0x0A # 0x0A # 0x0A # js '',Stretch,1,5m,none'')
   = [js ''Day 3,Lunges,,10,'', [], [], [], [], [], [], [], [], [], js '',Stretch,1,5m,none'']"
  by (simp add: js_def)

lemma rowMessage_sparseDocument:
  "rowMessage 2 [ColSets, ColWeight] = js ''Row 2: missing Sets, Weight''"
  "rowMessage 12 [ColDay] = js ''Row 12: missing Day''"
  by (simp_all add: rowMessage_def js_def showNat.simps)

lemma parseCsv_sparseDocument:
  "parseCsv toLowerCaseASCII sparseDocument
   = \<lparr> rows =
         [\<lparr> Day = js ''Day 3'', Exercise = js ''Lunges'', Sets = [],
            Reps_or_Time = js ''10'', Weight = [], Notes = Some [],
            Form_Guidance = Some [], Muscle_Group = Some [], Main_Muscle = Some [],
            Day_Type = [] \<rparr>,
          \<lparr> Day = [], Exercise = js ''Stretch'', Sets = js ''1'',
            Reps_or_Time = js ''5m'', Weight = js ''none'', Notes = Some [],
            Form_Guidance = Some [], Muscle_Group = Some [], Main_Muscle = Some [],
            Day_Type = [] \<rparr>],
       sessionNames = [js ''Day 3''],
       errors = [js ''Row 2: missing Sets, Weight'', js ''Row 12: missing Day''] \<rparr>"
  apply (simp only: sparseDocument_lines parseCsv_stdHeader splitOn_sparseDocument)
  apply (simp only: rowLoop.simps processLine_lunges processLine_stretch processLine_empty Let_def)
  apply (simp only: one_add_one numeral_plus_one add_One Num.inc.simps Num.add_num_simps
      numeral_One[symmetric] semiring_norm)
  apply (simp add: setAdd_def rowMessage_sparseDocument)
  done

lemma sparseDocument_guards:
  "trim sparseDocument \<noteq> []" "0x0A \<in> set sparseDocument"
  "missingRequired toLowerCaseASCII (headerCells sparseDocument) = []"
  by (simp_all add: sparseDocument_lines stdHeader_line headerCells_stdHeader missingRequired_stdCells)

lemma rawLines_sparseDocument:
  "rawLines sparseDocument
   = [stdHeader, js ''Day 3,Lunges,,10,'', [], [], [], [], [], [], [], [], [],
      js '',Stretch,1,5m,none'']"
  by (simp only: sparseDocument_lines rawLines_stdHeader splitOn_sparseDocument)

lemma rowOfLine_stretch:
  "rowOfLine Comma (indexOf toLowerCaseASCII stdCells) (js '',Stretch,1,5m,none'')
   = \<lparr> Day = [], Exercise = js ''Stretch'', Sets = js ''1'',
       Reps_or_Time = js ''5m'', Weight = js ''none'', Notes = Some [],
       Form_Guidance = Some [], Muscle_Group = Some [], Main_Muscle = Some [],
       Day_Type = [] \<rparr>"
  by (simp add: eval_row)

lemma stretch_facts:
  "admitted Comma (indexOf toLowerCaseASCII stdCells) (js '',Stretch,1,5m,none'')"
  "emptyRequiredFields (rowOfLine Comma (indexOf toLowerCaseASCII stdCells) (js '',Stretch,1,5m,none''))
   = [js ''Day'']"
  apply (simp_all only: admitted_def rowOfLine_stretch)
  apply (simp_all add: emptyRequiredFields_def eval_strings)
  done

lemma processLine_rowing:
  "processLine Comma (indexOf toLowerCaseASCII aliasCells) n (js ''Mon,Rowing,3,10,20'' @ [0x0D]) acc
   = \<lparr> rows = rows acc @
         [\<lparr> Day = js ''Mon'', Exercise = js ''Rowing'', Sets = js ''3'',
            Reps_or_Time = js ''10'', Weight = js ''20'', Notes = Some [],
            Form_Guidance = Some [], Muscle_Group = Some [], Main_Muscle = Some [],
            Day_Type = [] \<rparr>],
       sessionNames = setAdd (js ''Mon'') (sessionNames acc),
       errors = errors acc \<rparr>"
  by (simp add: processLine_def rowOfLine_def makeRow_def getCell_def indexOf_aliasCells
      stdIndex_def splitCsvLine_def stripTrailingCR_def missingInRow_def required_def Let_def
      eval_strings)

lemma parseCsv_aliasDocument:
  "parseCsv toLowerCaseASCII aliasDocument
   = \<lparr> rows =
         [\<lparr> Day = js ''Mon'', Exercise = js ''Rowing'', Sets = js ''3'',
            Reps_or_Time = js ''10'', Weight = js ''20'', Notes = Some [],
            Form_Guidance = Some [], Muscle_Group = Some [], Main_Muscle = Some [],
            Day_Type = [] \<rparr>],
       sessionNames = [js ''Mon''],
       errors = [] \<rparr>"
proof -
  have e: "processLine Comma (indexOf toLowerCaseASCII aliasCells) n [] acc = acc" for n acc
    by (simp add: processLine_def)
  show ?thesis
    apply (simp only: parseCsv_rows[OF aliasDocument_guards])
    apply (simp only: aliasDocument_header headerCells_aliasDocument aliasDocument_lines list.sel)
    apply (simp only: rowLoop.simps processLine_rowing e Let_def)
    apply (simp add: setAdd_def)
    done
qed

lemma processLine_legs:
  "processLine Comma (indexOf toLowerCaseASCII stdCells) n (js '' Legs ,Squat,3,10,50kg'') acc
   = \<lparr> rows = rows acc @
         [\<lparr> Day = js ''Legs'', Exercise = js ''Squat'', Sets = js ''3'',
            Reps_or_Time = js ''10'', Weight = js ''50kg'', Notes = Some [],
            Form_Guidance = Some [], Muscle_Group = Some [], Main_Muscle = Some [],
            Day_Type = [] \<rparr>],
       sessionNames = setAdd (js ''Legs'') (sessionNames acc),
       errors = errors acc \<rparr>"
  by (simp add: eval_row)

lemma parseCsv_paddedDay:
  "parseCsv toLowerCaseASCII paddedDay
   = \<lparr> rows =
         [\<lparr> Day = js ''Legs'', Exercise = js ''Squat'', Sets = js ''3'',
            Reps_or_Time = js ''10'', Weight = js ''50kg'', Notes = Some [],
            Form_Guidance = Some [], Muscle_Group = Some [], Main_Muscle = Some [],
            Day_Type = [] \<rparr>],
       sessionNames = [js ''Legs''],
       errors = [] \<rparr>"
proof -
  have p: "paddedDay = stdHeader @ 0x0A # js '' Legs ,Squat,3,10,50kg''"
    by (simp add: paddedDay_def)
  have s: "splitOn 0x0A (js '' Legs ,Squat,3,10,50kg'') = [js '' Legs ,Squat,3,10,50kg'']"
    by (simp add: js_def)
  show ?thesis
    apply (simp only: p parseCsv_stdHeader s)
    apply (simp only: rowLoop.simps processLine_legs Let_def)
    apply (simp add: setAdd_def)
    done
qed

lemma processLine_negative:
  "processLine Comma (indexOf toLowerCaseASCII stdCells) n (js ''Day 1,Squats,-3,10,40kg'') acc
   = \<lparr> rows = rows acc @
         [\<lparr> Day = js ''Day 1'', Exercise = js ''Squats'', Sets = js ''-3'',
            Reps_or_Time = js ''10'', Weight = js ''40kg'', Notes = Some [],
            Form_Guidance = Some [], Muscle_Group = Some [], Main_Muscle = Some [],
            Day_Type = [] \<rparr>],
       sessionNames = setAdd (js ''Day 1'') (sessionNames acc),
       errors = errors acc \<rparr>"
  by (simp add: eval_row)

lemma parseCsv_negativeSets:
  "parseCsv toLowerCaseASCII negativeSets
   = \<lparr> rows =
         [\<lparr> Day = js ''Day 1'', Exercise = js ''Squats'', Sets = js ''-3'',
            Reps_or_Time = js ''10'', Weight = js ''40kg'', Notes = Some [],
            Form_Guidance = Some [], Muscle_Group = Some [], Main_Muscle = Some [],
            Day_Type = [] \<rparr>],
       sessionNames = [js ''Day 1''],
       errors = [] \<rparr>"
proof -
  have p: "negativeSets = stdHeader @ 0x0A # js ''Day 1,Squats,-3,10,40kg''"
    by (simp add: negativeSets_def)
  have s: "splitOn 0x0A (js ''Day 1,Squats,-3,10,40kg'') = [js ''Day 1,Squats,-3,10,40kg'']"
    by (simp add: js_def)
  show ?thesis
    apply (simp only: p parseCsv_stdHeader s)
    apply (simp only: rowLoop.simps processLine_negative Let_def)
    apply (simp add: setAdd_def)
    done
qed


section \<open>Claims about the importer\<close>




text \<open>
  Claim C2, as amended. When the text is not blank, has a line feed, and all five required
  headers resolve, no diagnostic of the result is a document-level one, and the session
  names are the non-empty \<open>Day\<close> values of the rows of the result, without duplicates, in
  ascending order of code units.
\<close>

theorem parseCsv_resolved_headers:
  assumes "trim t \<noteq> []" "0x0A \<in> set t" "missingRequired lower (headerCells t) = []"
  shows "(\<forall>e \<in> set (errors (parseCsv lower t)). \<not> documentDiagnostic e)
         \<and> sessionNames (parseCsv lower t)
           = sorted_list_of_set (set (filter (\<lambda>s. s \<noteq> []) (map Day (rows (parseCsv lower t)))))"
  using errors_parseCsv_rowMessage[OF assms] sessionNames_parseCsv[OF assms]
    rowMessage_not_documentDiagnostic by blast

theorem parseCsv_resolved_headers_witness:
  "trim scenarioA \<noteq> [] \<and> 0x0A \<in> set scenarioA
   \<and> missingRequired toLowerCaseASCII (headerCells scenarioA) = []
   \<and> errors (parseCsv toLowerCaseASCII scenarioA) = [js ''Row 3: missing Weight'']
   \<and> \<not> documentDiagnostic (js ''Row 3: missing Weight'')
   \<and> sessionNames (parseCsv toLowerCaseASCII scenarioA) = [js ''Day 1'', js ''Day 2'']
   \<and> sorted_list_of_set
        (set (filter (\<lambda>s. s \<noteq> []) (map Day (rows (parseCsv toLowerCaseASCII scenarioA)))))
     = [js ''Day 1'', js ''Day 2'']
   \<and> headerCells aliasDocument = aliasCells
   \<and> missingRequired toLowerCaseASCII (headerCells aliasDocument) = []
   \<and> errors (parseCsv toLowerCaseASCII aliasDocument) = []
   \<and> sorted_list_of_set
        (set (filter (\<lambda>s. s \<noteq> []) (map Day (rows (parseCsv toLowerCaseASCII aliasDocument)))))
     = [js ''Mon'']"
proof -
  note c = parseCsv_resolved_headers[OF scenarioA_guards]
  note a = parseCsv_resolved_headers[OF aliasDocument_guards]
  have e: "errors (parseCsv toLowerCaseASCII scenarioA) = [js ''Row 3: missing Weight'']"
    and n: "sessionNames (parseCsv toLowerCaseASCII scenarioA) = [js ''Day 1'', js ''Day 2'']"
    by (simp_all add: parseCsv_scenarioA)
  have e': "errors (parseCsv toLowerCaseASCII aliasDocument) = []"
    and n': "sessionNames (parseCsv toLowerCaseASCII aliasDocument) = [js ''Mon'']"
    by (simp_all add: parseCsv_aliasDocument)
  have "\<not> documentDiagnostic (js ''Row 3: missing Weight'')"
    using c e by simp
  moreover have "sorted_list_of_set
        (set (filter (\<lambda>s. s \<noteq> []) (map Day (rows (parseCsv toLowerCaseASCII scenarioA)))))
     = [js ''Day 1'', js ''Day 2'']"
    using c n by metis
  moreover have "sorted_list_of_set
        (set (filter (\<lambda>s. s \<noteq> []) (map Day (rows (parseCsv toLowerCaseASCII aliasDocument)))))
     = [js ''Mon'']"
    using a n' by metis
  ultimately show ?thesis
    using scenarioA_guards aliasDocument_guards(3) headerCells_aliasDocument e e' n by blast
qed

theorem parseCsv_resolved_headers_counterexample:
  "missingRequired toLowerCaseASCII (headerCells stdHeader) = []
   \<and> errors (parseCsv toLowerCaseASCII stdHeader)
     = [js ''CSV must have a header and at least one data row'']
   \<and> documentDiagnostic (js ''CSV must have a header and at least one data row'')"
proof -
  have m: "missingRequired toLowerCaseASCII (headerCells stdHeader) = []"
    by (simp only: headerCells_stdHeader_only missingRequired_stdCells)
  have e: "errors (parseCsv toLowerCaseASCII stdHeader) = [tooFewLinesMessage]"
    using stdHeader_line(6)[of "[]"] by (simp add: parseCsv_too_few stdHeader_line(4))
  have t: "tooFewLinesMessage = js ''CSV must have a header and at least one data row''"
    by (simp add: tooFewLinesMessage_def)
  show ?thesis
    using m e documentDiagnostic_tooFew by (simp add: t)
qed

text \<open>
  Claim C4. In a document that passes the header check, every line after the header that
  is admitted and whose row has an empty required field adds to the diagnostics the
  message that reads \<open>Row \<close>, then the decimal numeral of the index of the line among
  all lines plus one (the header is line 1, the first data line is row 2), then
  \<open>: missing \<close>, then the names of the empty required fields of the row, in the order of
  the five required fields and separated by a comma and a space; and its row is in the
  output all the same. The diagnostics are exactly these messages, one for each such
  line, in the order of the lines. Scenario A gives three rows and the one diagnostic
  \<open>Row 3: missing Weight\<close>; the document of twelve lines gives two rows and the
  diagnostics \<open>Row 2: missing Sets, Weight\<close> and \<open>Row 12: missing Day\<close>.
\<close>

theorem parseCsv_row_diagnostics:
  "(trim t \<noteq> [] \<and> 0x0A \<in> set t \<and> missingRequired lower (headerCells t) = [] \<longrightarrow>
      (\<forall>i. 1 \<le> i \<and> i < length (rawLines t)
            \<and> admitted (detectDelimiter (headerLine t)) (indexOf lower (headerCells t)) (rawLines t ! i)
            \<and> emptyRequiredFields (rowOfLine (detectDelimiter (headerLine t))
                  (indexOf lower (headerCells t)) (rawLines t ! i)) \<noteq> []
          \<longrightarrow> js ''Row '' @ showNat (i + 1) @ js '': missing ''
                @ joinWith (js '', '')
                    (emptyRequiredFields (rowOfLine (detectDelimiter (headerLine t))
                       (indexOf lower (headerCells t)) (rawLines t ! i)))
                \<in> set (errors (parseCsv lower t))
              \<and> rowOfLine (detectDelimiter (headerLine t)) (indexOf lower (headerCells t))
                  (rawLines t ! i) \<in> set (rows (parseCsv lower t)))
      \<and> errors (parseCsv lower t)
        = concat (map (\<lambda>i. lineDiagnostics (detectDelimiter (headerLine t))
                               (indexOf lower (headerCells t)) i (rawLines t ! i))
                    [1 ..< length (rawLines t)]))
   \<and> (\<forall>n. decimalNumeral n (showNat n))
   \<and> length (rows (parseCsv toLowerCaseASCII scenarioA)) = 3
   \<and> errors (parseCsv toLowerCaseASCII scenarioA) = [js ''Row 3: missing Weight'']
   \<and> length (rows (parseCsv toLowerCaseASCII sparseDocument)) = 2
   \<and> errors (parseCsv toLowerCaseASCII sparseDocument)
     = [js ''Row 2: missing Sets, Weight'', js ''Row 12: missing Day'']"
proof -
  let ?d = "detectDelimiter (headerLine t)" and ?ix = "indexOf lower (headerCells t)"
  have general: "js ''Row '' @ showNat (i + 1) @ js '': missing ''
                 @ joinWith (js '', '') (emptyRequiredFields (rowOfLine ?d ?ix (rawLines t ! i)))
                   \<in> set (errors (parseCsv lower t))
                 \<and> rowOfLine ?d ?ix (rawLines t ! i) \<in> set (rows (parseCsv lower t))"
    if g: "trim t \<noteq> []" "0x0A \<in> set t" "missingRequired lower (headerCells t) = []"
      and i: "1 \<le> i" "i < length (rawLines t)"
      and a: "admitted ?d ?ix (rawLines t ! i)"
      and m: "emptyRequiredFields (rowOfLine ?d ?ix (rawLines t ! i)) \<noteq> []" for i
  proof
    have "js ''Row '' @ showNat (i + 1) @ js '': missing ''
          @ joinWith (js '', '') (emptyRequiredFields (rowOfLine ?d ?ix (rawLines t ! i)))
            \<in> set (lineDiagnostics ?d ?ix i (rawLines t ! i))"
      using a m by (simp add: lineDiagnostics_def)
    moreover have "i \<in> set [1 ..< length (rawLines t)]" using i by simp
    ultimately show "js ''Row '' @ showNat (i + 1) @ js '': missing ''
          @ joinWith (js '', '') (emptyRequiredFields (rowOfLine ?d ?ix (rawLines t ! i)))
            \<in> set (errors (parseCsv lower t))"
      unfolding errors_parseCsv[OF g] by (auto simp del: upt_Suc)
  next
    have "rawLines t \<noteq> []" using i by auto
    then have "rawLines t ! i = tl (rawLines t) ! (i - 1)" "i - 1 < length (tl (rawLines t))"
      using i by (cases "rawLines t"; cases i; simp)+
    then have "rawLines t ! i \<in> set (tl (rawLines t))"
      by (metis nth_mem)
    then show "rowOfLine ?d ?ix (rawLines t ! i) \<in> set (rows (parseCsv lower t))"
      using a by (simp add: rows_parseCsv[OF g])
  qed
  show ?thesis
    using general errors_parseCsv[of t lower] showNat_decimal
    by (simp add: parseCsv_scenarioA parseCsv_sparseDocument)
qed

theorem parseCsv_row_diagnostics_witness:
  "rawLines scenarioA ! 2 = js ''Day 1,Plank,3,60s,''
   \<and> admitted Comma (indexOf toLowerCaseASCII stdCells) (js ''Day 1,Plank,3,60s,'')
   \<and> emptyRequiredFields
       (rowOfLine Comma (indexOf toLowerCaseASCII stdCells) (js ''Day 1,Plank,3,60s,''))
     = [js ''Weight'']
   \<and> js ''Row 3: missing Weight'' \<in> set (errors (parseCsv toLowerCaseASCII scenarioA))
   \<and> rowOfLine Comma (indexOf toLowerCaseASCII stdCells) (js ''Day 1,Plank,3,60s,'')
     \<in> set (rows (parseCsv toLowerCaseASCII scenarioA))
   \<and> rawLines sparseDocument ! 11 = js '',Stretch,1,5m,none''
   \<and> admitted Comma (indexOf toLowerCaseASCII stdCells) (js '',Stretch,1,5m,none'')
   \<and> emptyRequiredFields
       (rowOfLine Comma (indexOf toLowerCaseASCII stdCells) (js '',Stretch,1,5m,none''))
     = [js ''Day'']
   \<and> js ''Row 12: missing Day'' \<in> set (errors (parseCsv toLowerCaseASCII sparseDocument))
   \<and> rowOfLine Comma (indexOf toLowerCaseASCII stdCells) (js '',Stretch,1,5m,none'')
     \<in> set (rows (parseCsv toLowerCaseASCII sparseDocument))
   \<and> decimalNumeral 12 (js ''12'')"
proof -
  have l: "rawLines scenarioA ! 2 = js ''Day 1,Plank,3,60s,''" "length (rawLines scenarioA) = 4"
    by (simp_all add: rawLines_scenarioA)
  have h: "detectDelimiter (headerLine scenarioA) = Comma" "headerCells scenarioA = stdCells"
    by (simp_all only: scenarioA_lines headerLine_stdHeader headerCells_stdHeader stdHeader_line)
  have "1 \<le> (2::nat) \<and> 2 < length (rawLines scenarioA)
        \<and> admitted (detectDelimiter (headerLine scenarioA))
            (indexOf toLowerCaseASCII (headerCells scenarioA)) (rawLines scenarioA ! 2)
        \<and> emptyRequiredFields (rowOfLine (detectDelimiter (headerLine scenarioA))
            (indexOf toLowerCaseASCII (headerCells scenarioA)) (rawLines scenarioA ! 2)) \<noteq> []"
    by (simp add: l h plank_facts plank_empty)
  then have "js ''Row '' @ showNat (2 + 1) @ js '': missing ''
             @ joinWith (js '', '')
                 (emptyRequiredFields (rowOfLine (detectDelimiter (headerLine scenarioA))
                    (indexOf toLowerCaseASCII (headerCells scenarioA)) (rawLines scenarioA ! 2)))
             \<in> set (errors (parseCsv toLowerCaseASCII scenarioA))
             \<and> rowOfLine (detectDelimiter (headerLine scenarioA))
                 (indexOf toLowerCaseASCII (headerCells scenarioA)) (rawLines scenarioA ! 2)
               \<in> set (rows (parseCsv toLowerCaseASCII scenarioA))"
    using parseCsv_row_diagnostics[of scenarioA toLowerCaseASCII] scenarioA_guards by blast
  then have a: "js ''Row '' @ js ''3'' @ js '': missing '' @ js ''Weight''
             \<in> set (errors (parseCsv toLowerCaseASCII scenarioA))
             \<and> rowOfLine Comma (indexOf toLowerCaseASCII stdCells) (js ''Day 1,Plank,3,60s,'')
               \<in> set (rows (parseCsv toLowerCaseASCII scenarioA))"
    by (simp add: l h plank_empty showNat_examples)
  have l': "rawLines sparseDocument ! 11 = js '',Stretch,1,5m,none''"
    "length (rawLines sparseDocument) = 12"
    by (simp_all add: rawLines_sparseDocument)
  have h': "detectDelimiter (headerLine sparseDocument) = Comma"
    "headerCells sparseDocument = stdCells"
    by (simp_all only: sparseDocument_lines headerLine_stdHeader headerCells_stdHeader stdHeader_line)
  have "1 \<le> (11::nat) \<and> 11 < length (rawLines sparseDocument)
        \<and> admitted (detectDelimiter (headerLine sparseDocument))
            (indexOf toLowerCaseASCII (headerCells sparseDocument)) (rawLines sparseDocument ! 11)
        \<and> emptyRequiredFields (rowOfLine (detectDelimiter (headerLine sparseDocument))
            (indexOf toLowerCaseASCII (headerCells sparseDocument)) (rawLines sparseDocument ! 11))
          \<noteq> []"
    by (simp add: l' h' stretch_facts)
  then have "js ''Row '' @ showNat (11 + 1) @ js '': missing ''
             @ joinWith (js '', '')
                 (emptyRequiredFields (rowOfLine (detectDelimiter (headerLine sparseDocument))
                    (indexOf toLowerCaseASCII (headerCells sparseDocument))
                    (rawLines sparseDocument ! 11)))
             \<in> set (errors (parseCsv toLowerCaseASCII sparseDocument))
             \<and> rowOfLine (detectDelimiter (headerLine sparseDocument))
                 (indexOf toLowerCaseASCII (headerCells sparseDocument)) (rawLines sparseDocument ! 11)
               \<in> set (rows (parseCsv toLowerCaseASCII sparseDocument))"
    using parseCsv_row_diagnostics[of sparseDocument toLowerCaseASCII] sparseDocument_guards
    by blast
  then have b: "js ''Row '' @ js ''12'' @ js '': missing '' @ js ''Day''
             \<in> set (errors (parseCsv toLowerCaseASCII sparseDocument))
             \<and> rowOfLine Comma (indexOf toLowerCaseASCII stdCells) (js '',Stretch,1,5m,none'')
               \<in> set (rows (parseCsv toLowerCaseASCII sparseDocument))"
    by (simp add: l' h' stretch_facts showNat_examples)
  have t: "js ''Row '' @ js ''3'' @ js '': missing '' @ js ''Weight'' = js ''Row 3: missing Weight''"
    "js ''Row '' @ js ''12'' @ js '': missing '' @ js ''Day'' = js ''Row 12: missing Day''"
    by (simp_all add: js_def)
  have d: "decimalNumeral 12 (js ''12'')"
    using parseCsv_row_diagnostics[of scenarioA toLowerCaseASCII] showNat_examples(1) by metis
  show ?thesis
    using a b d unfolding t by (simp add: l l' plank_facts plank_empty stretch_facts)
qed

lemma cell_makeRow: "cell (makeRow ix values) k = Some (getCell ix values k)"
  by (cases k) (simp_all add: makeRow_def)

lemma noOuterWhiteSpace_getCell:
  "noOuterWhiteSpace (getCell ix (map trim xs) k)"
  by (simp add: getCell_def noOuterWhiteSpace_trim noOuterWhiteSpace_Nil split: option.splits)

lemma noOuterWhiteSpace_cell_rowOfLine:
  "cell (rowOfLine d ix raw) k = Some v \<Longrightarrow> noOuterWhiteSpace v"
  using noOuterWhiteSpace_getCell[of ix _ k] by (auto simp: rowOfLine_def cell_makeRow)

text \<open>
  Claim C9. In every result of the importer, each of the ten fields of each row has no
  white space at its start or at its end, so that trimming it changes nothing, and so has
  each session name.
\<close>

theorem parseCsv_fields_trimmed:
  "(\<forall>row \<in> set (rows (parseCsv lower t)).
      \<forall>k v. cell row k = Some v \<longrightarrow> noOuterWhiteSpace v \<and> trim v = v)
   \<and> (\<forall>n \<in> set (sessionNames (parseCsv lower t)). noOuterWhiteSpace n \<and> trim n = n)"
proof (cases "trim t \<noteq> [] \<and> 0x0A \<in> set t \<and> missingRequired lower (headerCells t) = []")
  case True
  then have g: "trim t \<noteq> []" "0x0A \<in> set t" "missingRequired lower (headerCells t) = []"
    by simp_all
  have r: "\<forall>row \<in> set (rows (parseCsv lower t)).
             \<forall>k v. cell row k = Some v \<longrightarrow> noOuterWhiteSpace v \<and> trim v = v"
    by (auto simp: rows_parseCsv[OF g] dest: noOuterWhiteSpace_cell_rowOfLine intro: trim_idem)
  have "set (sessionNames (parseCsv lower t))
        = set (filter (\<lambda>s. s \<noteq> []) (map Day (rows (parseCsv lower t))))"
    by (simp add: sessionNames_parseCsv[OF g])
  then have "\<forall>n \<in> set (sessionNames (parseCsv lower t)).
               \<exists>row \<in> set (rows (parseCsv lower t)). cell row ColDay = Some n"
    by auto
  then show ?thesis using r by blast
next
  case False
  then consider "trim t = []" | "trim t \<noteq> []" "0x0A \<notin> set t"
    | "trim t \<noteq> []" "0x0A \<in> set t" "missingRequired lower (headerCells t) \<noteq> []"
    by blast
  then show ?thesis
    by cases (simp_all add: parseCsv_empty parseCsv_too_few parseCsv_missing)
qed

theorem parseCsv_fields_trimmed_witness:
  "paddedDay = stdHeader @ [0x0A] @ js '' Legs ,Squat,3,10,50kg''
   \<and> sessionNames (parseCsv toLowerCaseASCII paddedDay) = [js ''Legs'']
   \<and> map Day (rows (parseCsv toLowerCaseASCII paddedDay)) = [js ''Legs'']
   \<and> noOuterWhiteSpace (js ''Legs'') \<and> trim (js ''Legs'') = js ''Legs''"
proof -
  have "sessionNames (parseCsv toLowerCaseASCII paddedDay) = [js ''Legs'']
        \<and> map Day (rows (parseCsv toLowerCaseASCII paddedDay)) = [js ''Legs'']
        \<and> noOuterWhiteSpace (js ''Legs'') \<and> trim (js ''Legs'') = js ''Legs''"
    using parseCsv_fields_trimmed[of toLowerCaseASCII paddedDay]
    by (simp add: parseCsv_paddedDay)
  moreover have "paddedDay = stdHeader @ [0x0A] @ js '' Legs ,Squat,3,10,50kg''"
    by (simp add: paddedDay_def)
  ultimately show ?thesis by blast
qed

text \<open>
  Claim C10. A text that is not blank, has a line feed, resolves the five required headers
  and has only blank lines after the header gives no rows, no session names and no
  diagnostics. The result is the one diagnostic for fewer than two lines exactly when the
  text is not blank and has no line feed.
\<close>

theorem parseCsv_only_blank_rows:
  "(trim t \<noteq> [] \<and> 0x0A \<in> set t \<and> missingRequired lower (headerCells t) = []
      \<and> (\<forall>l \<in> set (tl (rawLines t)). trim l = [])
    \<longrightarrow> parseCsv lower t = \<lparr> rows = [], sessionNames = [], errors = [] \<rparr>)
   \<and> (errors (parseCsv lower t) = [tooFewLinesMessage] \<longleftrightarrow> trim t \<noteq> [] \<and> 0x0A \<notin> set t)"
proof
  show "trim t \<noteq> [] \<and> 0x0A \<in> set t \<and> missingRequired lower (headerCells t) = []
      \<and> (\<forall>l \<in> set (tl (rawLines t)). trim l = [])
    \<longrightarrow> parseCsv lower t = \<lparr> rows = [], sessionNames = [], errors = [] \<rparr>"
  proof
    assume a: "trim t \<noteq> [] \<and> 0x0A \<in> set t \<and> missingRequired lower (headerCells t) = []
      \<and> (\<forall>l \<in> set (tl (rawLines t)). trim l = [])"
    then have g: "trim t \<noteq> []" "0x0A \<in> set t" "missingRequired lower (headerCells t) = []"
      and b: "\<forall>l \<in> set (tl (rawLines t)). trim l = []"
      by simp_all
    have loop: "rowLoop d ix n ls acc = acc" if "\<forall>l \<in> set ls. trim l = []" for d ix n ls acc
      using that by (induction ls arbitrary: n) (simp_all add: processLine_def)
    show "parseCsv lower t = \<lparr> rows = [], sessionNames = [], errors = [] \<rparr>"
      by (simp add: parseCsv_rows[OF g] loop[OF b])
  qed
next
  show "errors (parseCsv lower t) = [tooFewLinesMessage] \<longleftrightarrow> trim t \<noteq> [] \<and> 0x0A \<notin> set t"
  proof (cases "trim t \<noteq> [] \<and> 0x0A \<in> set t \<and> missingRequired lower (headerCells t) = []")
    case True
    then have g: "trim t \<noteq> []" "0x0A \<in> set t" "missingRequired lower (headerCells t) = []"
      by simp_all
    have "errors (parseCsv lower t) \<noteq> [tooFewLinesMessage]"
    proof
      assume "errors (parseCsv lower t) = [tooFewLinesMessage]"
      then have "tooFewLinesMessage \<in> set (errors (parseCsv lower t))" by simp
      then show False
        using errors_parseCsv_rowMessage[OF g] rowMessage_not_documentDiagnostic
          documentDiagnostic_tooFew by metis
    qed
    then show ?thesis using g by simp
  next
    case False
    then consider "trim t = []" | "trim t \<noteq> []" "0x0A \<notin> set t"
      | "trim t \<noteq> []" "0x0A \<in> set t" "missingRequired lower (headerCells t) \<noteq> []"
      by blast
    then show ?thesis
      by cases (simp_all add: parseCsv_empty parseCsv_too_few parseCsv_missing
          emptyMessage_not_tooFew missingHeadersMessage_not_tooFew)
  qed
qed

theorem parseCsv_only_blank_rows_witness:
  "tl (rawLines blankRows) = [js ''  '' @ [0x0D], []]
   \<and> parseCsv toLowerCaseASCII blankRows = \<lparr> rows = [], sessionNames = [], errors = [] \<rparr>
   \<and> errors (parseCsv toLowerCaseASCII stdHeader) = [tooFewLinesMessage]"
proof -
  have p: "blankRows = stdHeader @ 0x0A # (js ''  '' @ [0x0D, 0x0A])"
    by (simp add: blankRows_def)
  have l: "tl (rawLines blankRows) = [js ''  '' @ [0x0D], []]"
    by (simp add: p rawLines_stdHeader js_def)
  have g1: "trim blankRows \<noteq> [] \<and> 0x0A \<in> set blankRows
           \<and> missingRequired toLowerCaseASCII (headerCells blankRows) = []"
    by (simp add: p stdHeader_line headerCells_stdHeader missingRequired_stdCells)
  have g2: "\<forall>l \<in> set (tl (rawLines blankRows)). trim l = []"
    unfolding l by (simp add: eval_strings)
  note g = conjI[OF g1 g2]
  have s: "trim stdHeader \<noteq> [] \<and> 0x0A \<notin> set stdHeader"
    using stdHeader_line(6)[of "[]"] by (simp add: stdHeader_line(4))
  show ?thesis
    using parseCsv_only_blank_rows[of blankRows toLowerCaseASCII]
      parseCsv_only_blank_rows[of stdHeader toLowerCaseASCII] g s l by blast
qed


section \<open>The session builder\<close>

lemma sets_exerciseVM:
  "sets (exerciseVM s row i)
   = (if parseInt (Sets row) \<in> {NaN, NegZero, Finite 0} then Finite 1 else parseInt (Sets row))"
  by (simp add: exerciseVM_def orOne_def)

lemma sets_exerciseVM_nonzero: "sets (exerciseVM s row i) \<notin> {NaN, NegZero, Finite 0}"
  by (simp add: sets_exerciseVM)

lemma sets_buildTodaySessions_nonzero:
  "\<lbrakk>session \<in> set (buildTodaySessions parsedRows selected); e \<in> set (exercises session)\<rbrakk>
   \<Longrightarrow> sets e \<notin> {NaN, NegZero, Finite 0}"
  using sets_exerciseVM_nonzero by (auto simp: buildTodaySessions_def Let_def)

lemma parseInt_examples:
  "parseInt (js ''-3'') = Finite (- 3)" "parseInt (js ''3'') = Finite 3"
  "parseInt (js ''0'') = Finite 0" "parseInt (js ''-0'') = NegZero"
  "parseInt (js ''abc'') = NaN" "parseInt [] = NaN" "parseInt (js '' 12 reps'') = Finite 12"
  "parseInt (js ''0x1F'') = Finite 31"
  by (simp_all add: parseInt_def nearestDouble_def digitValue_def isWhiteSpace_def js_def Let_def)

lemma parseInt_rounds:
  "parseInt (js ''9007199254740993'') = Finite 9007199254740992"
  "parseInt (js ''-9007199254740995'') = Finite (- 9007199254740996)"
  "parseInt (js ''100000000000000000000000'') = Finite 99999999999999991611392"
  by (simp_all add: parseInt_def nearestDouble_def bitLength.simps digitValue_def isWhiteSpace_def
      js_def Let_def)

text \<open>
  Claim C5 fails on the code. The session builder takes the number of sets of the one row
  of the document \<open>negativeSets\<close> to be \<open>- 3\<close>: \<^verbatim>\<open>parseInt(row.Sets) || 1\<close> replaces
  \<^verbatim>\<open>NaN\<close> and \<open>0\<close> by \<open>1\<close> and lets a negative number through.
\<close>

theorem buildTodaySessions_negative_sets:
  "map (\<lambda>session. map sets (exercises session))
     (buildTodaySessions (rows (parseCsv toLowerCaseASCII negativeSets))
        (sessionNames (parseCsv toLowerCaseASCII negativeSets)))
   = [[Finite (- 3)]]"
  by (simp add: parseCsv_negativeSets buildTodaySessions_def sets_exerciseVM parseInt_examples)


section \<open>The persistent store\<close>

lemma js_eq_iff [simp]: "js a = js b \<longleftrightarrow> a = b"
proof -
  have "inj (of_char :: char \<Rightarrow> 16 word)"
    by (rule injI) (simp add: of_char_word16_eq_iff)
  then show ?thesis by (simp add: js_def inj_map_eq_map)
qed

lemma jsonNumber_Finite [simp]: "jsonNumber (Finite i) = JNum (Finite i)"
  by (simp add: jsonNumber_def)

lemma jsonNumber_cases: "jsonNumber n = JNull \<or> (\<exists>i. jsonNumber n = JNum (Finite i))"
  by (cases n) (simp_all add: jsonNumber_def)

lemma jsonify_jsonNumber [simp]: "jsonify (jsonNumber n) = jsonNumber n"
  by (cases n) (simp_all add: jsonNumber_def)

lemma jsonify_undefined_iff: "jsonify v = JUndefined \<longleftrightarrow> v = JUndefined"
  by (cases v) (auto simp: jsonNumber_def split: number.splits)

lemma jsonify_JObj_D:
  "jsonify v = JObj pm \<Longrightarrow> \<exists>m. v = JObj m \<and> pm = dropUndefined (fmmap jsonify m)"
  by (cases v) (auto simp: jsonNumber_def split: number.splits)

lemma fmlookup_dropUndefined:
  "fmlookup (dropUndefined m) k = (if fmlookup m k = Some JUndefined then None else fmlookup m k)"
  by (simp add: dropUndefined_def)

lemma fmlookup_jsonify_props:
  "fmlookup (dropUndefined (fmmap jsonify m)) k
   = (case fmlookup m k of
        None \<Rightarrow> None
      | Some v \<Rightarrow> if v = JUndefined then None else Some (jsonify v))"
  by (simp add: fmlookup_dropUndefined jsonify_undefined_iff split: option.splits)

lemma jsonify_idem: "jsonify (jsonify v) = jsonify v"
proof (induction v)
  case (JArr xs)
  then show ?case by (auto simp: undefinedToNull_def jsonify_undefined_iff)
next
  case (JObj m)
  have "fmlookup (dropUndefined (fmmap jsonify (dropUndefined (fmmap jsonify m)))) k
        = fmlookup (dropUndefined (fmmap jsonify m)) k" for k
    using JObj by (auto simp: fmlookup_jsonify_props jsonify_undefined_iff fmran'I split: option.splits)
  then show ?case by (simp add: fmap_ext)
qed simp_all

lemma jsonify_jsonData: "jsonData v \<Longrightarrow> jsonify v = v"
proof (induction v)
  case (JArr xs)
  then have "\<forall>x \<in> set xs. jsonify x = x \<and> x \<noteq> JUndefined"
    by (auto simp: list.pred_map list_all_iff)
  then show ?case by (simp add: undefinedToNull_def map_idI)
next
  case (JObj m)
  have "fmlookup (dropUndefined (fmmap jsonify m)) k = fmlookup m k" for k
  proof (cases "fmlookup m k")
    case None
    then show ?thesis by (simp add: fmlookup_jsonify_props)
  next
    case (Some v)
    then have "jsonData v" using JObj.prems by (auto simp: fmpred_iff)
    then have "jsonify v = v" "v \<noteq> JUndefined"
      using JObj.IH Some by (auto simp: fmran'I)
    then show ?thesis using Some by (simp add: fmlookup_jsonify_props)
  qed
  then show ?case by (simp add: fmap_ext)
qed (simp_all split: number.splits)

lemma jsonify_stable: "v = JUndefined \<or> jsonData v \<Longrightarrow> jsonify v = v"
  by (auto simp: jsonify_jsonData)

lemma getProp_JObj: "getProp (JObj m) k = Inr (case fmlookup m k of Some x \<Rightarrow> x | None \<Rightarrow> JUndefined)"
  by (simp add: getProp_def)

lemma field_JObj: "field (JObj m) k = (case fmlookup m k of Some x \<Rightarrow> x | None \<Rightarrow> JUndefined)"
  by (simp add: field_def getProp_def)

lemma getProp_version_JObj:
  "getProp parsed k = Inr (JNum n) \<Longrightarrow> \<exists>m. parsed = JObj m \<and> fmlookup m k = Some (JNum n)"
  by (cases parsed) (auto simp: getProp_def split: option.splits)

lemma getProp_Some_field:
  "\<lbrakk>parsed \<noteq> JNull; parsed \<noteq> JUndefined\<rbrakk> \<Longrightarrow> getProp parsed k = Inr (field parsed k)"
  by (cases parsed) (simp_all add: getProp_def field_def)

lemma field_spread:
  "field (JObj (a ++\<^sub>f b)) k
   = (case fmlookup b k of Some v \<Rightarrow> v | None \<Rightarrow> field (JObj a) k)"
  by (auto simp: field_JObj fmlookup_dom_iff split: option.splits)

lemma field_jsonify_JObj:
  "field (jsonify (JObj m)) k = (case fmlookup m k of None \<Rightarrow> JUndefined | Some v \<Rightarrow> jsonify v)"
  by (simp add: field_JObj fmlookup_jsonify_props split: option.splits)

lemma clearAll_idem: "clearAll (clearAll st) = clearAll st"
  by (simp add: clearAll_def removeItem_def)

lemma getItem_clearAll: "getItem (clearAll st) k = (if k = STORAGE_KEY then None else getItem st k)"
  by (simp add: clearAll_def removeItem_def getItem_def)

lemma getState_clearAll: "getState (clearAll st) = (DEFAULT_STATE, clearAll st)"
  by (simp add: getState_def getItem_clearAll)

lemma ownProps_DEFAULT_STATE: "JObj (ownProps DEFAULT_STATE) = DEFAULT_STATE"
  by (simp add: DEFAULT_STATE_def ownProps_def)

lemma DEFAULT_STATE_fields:
  "field DEFAULT_STATE (js ''panel'') = JStr (js ''landing'')"
  "field DEFAULT_STATE (js ''csvText'') = JUndefined"
  "field DEFAULT_STATE (js ''parsedRows'') = JUndefined"
  "field DEFAULT_STATE (js ''sessionNames'') = JUndefined"
  "field DEFAULT_STATE (js ''selectedSessions'') = JArr []"
  "field DEFAULT_STATE (js ''currentSessionIndex'') = JNum (Finite 0)"
  "field DEFAULT_STATE (js ''currentExerciseIndex'') = JObj fmempty"
  "field DEFAULT_STATE (js ''checkedSets'') = JObj fmempty"
  "field DEFAULT_STATE (js ''sessionTemplates'') = JObj fmempty"
  "field DEFAULT_STATE (js ''version'') = JNum SCHEMA_VERSION"
  "field DEFAULT_STATE (js ''csvMeta'') = JUndefined"
  "field DEFAULT_STATE (js ''sessionCompletion'') = JObj fmempty"
  by (simp_all add: DEFAULT_STATE_def field_JObj)

lemma DEFAULT_STATE_values:
  "fmlookup (ownProps DEFAULT_STATE) k = Some v \<Longrightarrow> v = JUndefined \<or> jsonData v"
  by (auto simp: DEFAULT_STATE_def ownProps_def fmpred_iff SCHEMA_VERSION_def split: if_splits)

lemma DEFAULT_STATE_stable:
  "fmlookup (ownProps DEFAULT_STATE) k = Some v \<Longrightarrow> jsonify v = v"
  using DEFAULT_STATE_values jsonify_stable by blast

lemma setState_refused: "\<not> writeAccepted quota st s \<Longrightarrow> setState quota st s = st"
  by (simp add: setState_def setItem_def writeAccepted_def)

lemma getItem_setState:
  "writeAccepted quota st s \<Longrightarrow> getItem (setState quota st s) STORAGE_KEY = Some (JSON_stringify s)"
  by (simp add: setState_def setItem_def getItem_def writeAccepted_def)

lemma getItem_setState_other:
  "k \<noteq> STORAGE_KEY \<Longrightarrow> getItem (setState quota st s) k = getItem st k"
  by (simp add: setState_def setItem_def getItem_def)

lemma storedDocument_setState:
  "\<lbrakk>writeAccepted quota st s; s \<noteq> JUndefined\<rbrakk>
   \<Longrightarrow> storedDocument (setState quota st s) = Some (jsonify s)"
  by (simp add: storedDocument_def getItem_setState JSON_stringify_def JSON_parse_def)

lemma getState_setState_JObj:
  assumes "fmlookup m (js ''version'') = Some (JNum SCHEMA_VERSION)"
    and "writeAccepted quota st (JObj m)"
  shows "getState (setState quota st (JObj m))
         = (JObj (ownProps DEFAULT_STATE ++\<^sub>f dropUndefined (fmmap jsonify m)),
            setState quota st (JObj m))"
  using assms(1)
  by (simp add: getState_def getItem_setState[OF assms(2)] JSON_stringify_def JSON_parse_def
      getProp_JObj fmlookup_jsonify_props ownProps_def SCHEMA_VERSION_def)

lemma writeAccepted_unlimited [simp]: "writeAccepted unlimited st s"
  by (simp add: writeAccepted_def unlimited_def)

lemma writeAccepted_exhausted [simp]: "\<not> writeAccepted exhausted st s"
  by (simp add: writeAccepted_def exhausted_def)

lemma getState_is_object:
  "\<exists>pm. fst (getState st) = JObj pm \<and> (\<forall>k v. fmlookup pm k = Some v \<longrightarrow> jsonify v = v)"
proof -
  have d: "\<exists>pm. DEFAULT_STATE = JObj pm \<and> (\<forall>k v. fmlookup pm k = Some v \<longrightarrow> jsonify v = v)"
    using DEFAULT_STATE_stable ownProps_DEFAULT_STATE by metis
  show ?thesis
  proof (cases "\<exists>m. getItem st STORAGE_KEY = Some (Stringified (JObj m))
                     \<and> fmlookup (dropUndefined (fmmap jsonify m)) (js ''version'') = Some (JNum SCHEMA_VERSION)")
    case True
    then obtain m where m: "getItem st STORAGE_KEY = Some (Stringified (JObj m))"
      "fmlookup (dropUndefined (fmmap jsonify m)) (js ''version'') = Some (JNum SCHEMA_VERSION)"
      by blast
    have g: "fst (getState st) = JObj (ownProps DEFAULT_STATE ++\<^sub>f dropUndefined (fmmap jsonify m))"
      using m by (simp add: getState_def JSON_parse_def getProp_JObj ownProps_def)
    have "jsonify v = v"
      if "fmlookup (ownProps DEFAULT_STATE ++\<^sub>f dropUndefined (fmmap jsonify m)) k = Some v" for k v
    proof (cases "fmlookup (dropUndefined (fmmap jsonify m)) k")
      case None
      then show ?thesis using that DEFAULT_STATE_stable[of k v] by (auto simp: fmlookup_dom_iff)
    next
      case (Some w)
      then have "v = w" using that by (auto simp: fmlookup_dom_iff)
      moreover obtain x where "w = jsonify x"
        using Some by (auto simp: fmlookup_jsonify_props split: option.splits if_splits)
      ultimately show ?thesis by (simp add: jsonify_idem)
    qed
    then show ?thesis using g by blast
  next
    case False
    have "fst (getState st) = DEFAULT_STATE"
    proof (cases "getItem st STORAGE_KEY")
      case None
      then show ?thesis by (simp add: getState_def)
    next
      case (Some stored)
      show ?thesis
      proof (cases stored)
        case Unparsable
        then show ?thesis using Some by (simp add: getState_def JSON_parse_def)
      next
        case (Stringified v)
        show ?thesis
        proof (cases "getProp (jsonify v) (js ''version'')")
          case (Inl e)
          then show ?thesis using Some Stringified by (simp add: getState_def JSON_parse_def)
        next
          case ver: (Inr version)
          have "version \<noteq> JNum SCHEMA_VERSION"
          proof
            assume "version = JNum SCHEMA_VERSION"
            then obtain m' where m': "jsonify v = JObj m'"
              "fmlookup m' (js ''version'') = Some (JNum SCHEMA_VERSION)"
              using ver getProp_version_JObj by blast
            then obtain m where "v = JObj m" using jsonify_JObj_D by blast
            then show False using False Some Stringified m' by auto
          qed
          then show ?thesis
            using Some Stringified ver by (simp add: getState_def JSON_parse_def)
        qed
      qed
    qed
    then show ?thesis using d by simp
  qed
qed

lemma getItem_getState_other:
  "k \<noteq> STORAGE_KEY \<Longrightarrow> getItem (snd (getState st)) k = getItem st k"
  by (auto simp: getState_def getItem_clearAll split: option.splits sum.splits)

text \<open>
  Claim C6. When the stored string parses to a document (anything but \<^verbatim>\<open>null\<close>, on which
  the read of the version throws) whose \<open>version\<close> field is not the current schema
  version, \<open>getState\<close> returns the default document, whose collections are empty and
  whose version is the current one, and removes the stored string, leaving every other
  key alone. A read after that returns the defaults again and leaves the storage as it
  is, and clearing twice is clearing once.
\<close>

theorem getState_version_mismatch:
  assumes "getItem st STORAGE_KEY = Some stored" and "JSON_parse stored = Inr parsed"
    and "parsed \<noteq> JNull" and "parsed \<noteq> JUndefined"
    and "field parsed (js ''version'') \<noteq> JNum SCHEMA_VERSION"
  shows "getState st = (DEFAULT_STATE, clearAll st)
         \<and> getItem (clearAll st) STORAGE_KEY = None
         \<and> (\<forall>k. k \<noteq> STORAGE_KEY \<longrightarrow> getItem (clearAll st) k = getItem st k)
         \<and> getState (clearAll st) = (DEFAULT_STATE, clearAll st)
         \<and> clearAll (clearAll st) = clearAll st
         \<and> field DEFAULT_STATE (js ''version'') = JNum SCHEMA_VERSION
         \<and> field DEFAULT_STATE (js ''selectedSessions'') = JArr []
         \<and> field DEFAULT_STATE (js ''currentExerciseIndex'') = JObj fmempty
         \<and> field DEFAULT_STATE (js ''checkedSets'') = JObj fmempty
         \<and> field DEFAULT_STATE (js ''sessionTemplates'') = JObj fmempty
         \<and> field DEFAULT_STATE (js ''sessionCompletion'') = JObj fmempty"
proof -
  have "getState st = (DEFAULT_STATE, clearAll st)"
    using assms by (simp add: getState_def getProp_Some_field)
  then show ?thesis
    by (simp add: getItem_clearAll getState_clearAll clearAll_idem DEFAULT_STATE_fields)
qed

theorem getState_version_mismatch_witness:
  "getState oldStore = (DEFAULT_STATE, Map.empty)
   \<and> getState Map.empty = (DEFAULT_STATE, Map.empty)
   \<and> clearAll oldStore = Map.empty"
proof -
  let ?doc = "JObj (fmap_of_list [(js ''version'', JNum (Finite 0)), (js ''panel'', JStr (js ''workout''))])"
  have c: "clearAll oldStore = Map.empty"
    by (simp add: oldStore_def clearAll_def removeItem_def)
  have "getItem oldStore STORAGE_KEY = Some (Stringified ?doc)"
    and "jsonData ?doc"
    by (simp_all add: oldStore_def getItem_def fmpred_iff)
  then have h: "getItem oldStore STORAGE_KEY = Some (Stringified ?doc)"
    "JSON_parse (Stringified ?doc) = Inr ?doc" "?doc \<noteq> JNull" "?doc \<noteq> JUndefined"
    "field ?doc (js ''version'') \<noteq> JNum SCHEMA_VERSION"
    by (simp_all add: JSON_parse_def jsonify_jsonData field_JObj SCHEMA_VERSION_def
        del: jsonify.simps)
  show ?thesis
    using getState_version_mismatch[OF h] by (simp add: c)
qed

lemma sampleSnapshot_ok:
  "fmlookup sampleSnapshot (js ''version'') = Some (JNum SCHEMA_VERSION)"
  "\<forall>k v. fmlookup sampleSnapshot k = Some v \<longrightarrow>
     (if v = JUndefined then field DEFAULT_STATE k = JUndefined else jsonData v)"
  by (auto simp: sampleSnapshot_def SCHEMA_VERSION_def DEFAULT_STATE_fields split: if_splits)

lemma sampleSnapshot_lookup:
  "fmlookup sampleSnapshot (js ''version'') = Some (JNum (Finite 1))"
  "fmlookup sampleSnapshot (js ''panel'') = Some (JStr (js ''workout''))"
  "fmlookup sampleSnapshot (js ''selectedSessions'') = Some (JArr [JStr (js ''Day 1'')])"
  "fmlookup sampleSnapshot (js ''csvText'') = Some JUndefined"
  "fmlookup sampleSnapshot (js ''checkedSets'') = None"
  "fmlookup sampleSnapshot (js ''sessionCompletion'') = None"
  by (simp_all add: sampleSnapshot_def)

lemma nanIndex_lookup:
  "fmlookup nanIndex (js ''version'') = Some (JNum SCHEMA_VERSION)"
  "fmlookup nanIndex (js ''currentSessionIndex'') = Some (JNum NaN)"
  by (simp_all add: nanIndex_def SCHEMA_VERSION_def)

lemma undefinedCompletion_lookup:
  "fmlookup undefinedCompletion (js ''version'') = Some (JNum SCHEMA_VERSION)"
  "fmlookup undefinedCompletion (js ''sessionCompletion'') = Some JUndefined"
  by (simp_all add: undefinedCompletion_def SCHEMA_VERSION_def)

text \<open>
  Claim C7, as amended. A snapshot is an object whose \<open>version\<close> field is the current
  schema version and each of whose fields holds JSON data (no \<^verbatim>\<open>undefined\<close>, \<^verbatim>\<open>NaN\<close>,
  infinity or negative zero in it), or holds \<^verbatim>\<open>undefined\<close> where the default document
  does too. When the storage accepts the write of \<open>setState\<close>, a read with \<open>getState\<close>
  from the storage that the write left gives the snapshot merged over the defaults:
  every field of the state read equals the field of \<^verbatim>\<open>{...DEFAULT_STATE, ...snapshot}\<close>,
  and the read leaves the storage as it is. When the storage refuses the write,
  \<open>setState\<close> leaves the storage as it was.
\<close>

theorem setState_getState:
  assumes "fmlookup m (js ''version'') = Some (JNum SCHEMA_VERSION)"
    and "\<forall>k v. fmlookup m k = Some v \<longrightarrow>
           (if v = JUndefined then field DEFAULT_STATE k = JUndefined else jsonData v)"
  shows "(writeAccepted quota st (JObj m) \<longrightarrow>
            (\<forall>k. field (fst (getState (setState quota st (JObj m)))) k
                  = field (JObj (ownProps DEFAULT_STATE ++\<^sub>f m)) k)
            \<and> snd (getState (setState quota st (JObj m))) = setState quota st (JObj m))
         \<and> (\<not> writeAccepted quota st (JObj m) \<longrightarrow> setState quota st (JObj m) = st)"
proof -
  have "field (JObj (ownProps DEFAULT_STATE ++\<^sub>f dropUndefined (fmmap jsonify m))) k
        = field (JObj (ownProps DEFAULT_STATE ++\<^sub>f m)) k" for k
  proof (cases "fmlookup m k")
    case None
    then show ?thesis by (simp add: field_spread fmlookup_jsonify_props)
  next
    case (Some v)
    show ?thesis
    proof (cases "v = JUndefined")
      case True
      then have "field DEFAULT_STATE k = JUndefined" using assms(2) Some by auto
      then show ?thesis
        using Some True by (simp add: field_spread fmlookup_jsonify_props ownProps_DEFAULT_STATE)
    next
      case False
      then have "jsonData v" using assms(2) Some by auto
      then show ?thesis
        using Some False by (simp add: field_spread fmlookup_jsonify_props jsonify_jsonData)
    qed
  qed
  then show ?thesis
    by (simp add: getState_setState_JObj[OF assms(1)] setState_refused)
qed

theorem setState_getState_witness:
  "writeAccepted unlimited Map.empty (JObj sampleSnapshot)
   \<and> field (fst (getState sampleStore)) (js ''panel'') = JStr (js ''workout'')
   \<and> field (fst (getState sampleStore)) (js ''selectedSessions'') = JArr [JStr (js ''Day 1'')]
   \<and> field (fst (getState sampleStore)) (js ''csvText'') = JUndefined
   \<and> field (fst (getState sampleStore)) (js ''checkedSets'') = JObj fmempty
   \<and> snd (getState sampleStore) = sampleStore
   \<and> \<not> writeAccepted exhausted Map.empty (JObj sampleSnapshot)
   \<and> setState exhausted Map.empty (JObj sampleSnapshot) = Map.empty"
  using setState_getState[OF sampleSnapshot_ok, of unlimited Map.empty]
    setState_getState[OF sampleSnapshot_ok, of exhausted Map.empty]
  by (simp add: sampleStore_def field_spread ownProps_DEFAULT_STATE DEFAULT_STATE_fields
      sampleSnapshot_lookup)

theorem setState_getState_counterexample:
  "fmlookup undefinedCompletion (js ''version'') = Some (JNum SCHEMA_VERSION)
   \<and> field (fst (getState (setState unlimited Map.empty (JObj undefinedCompletion))))
       (js ''sessionCompletion'') = JObj fmempty
   \<and> field (JObj (ownProps DEFAULT_STATE ++\<^sub>f undefinedCompletion)) (js ''sessionCompletion'')
     = JUndefined
   \<and> fmlookup nanIndex (js ''version'') = Some (JNum SCHEMA_VERSION)
   \<and> field (fst (getState (setState unlimited Map.empty (JObj nanIndex))))
       (js ''currentSessionIndex'') = JNull
   \<and> field (JObj (ownProps DEFAULT_STATE ++\<^sub>f nanIndex)) (js ''currentSessionIndex'') = JNum NaN
   \<and> fmlookup sampleSnapshot (js ''version'') = Some (JNum SCHEMA_VERSION)
   \<and> field (fst (getState (setState exhausted Map.empty (JObj sampleSnapshot)))) (js ''panel'')
     = JStr (js ''landing'')
   \<and> field (JObj (ownProps DEFAULT_STATE ++\<^sub>f sampleSnapshot)) (js ''panel'')
     = JStr (js ''workout'')"
proof -
  have u: "field (fst (getState (setState unlimited Map.empty (JObj undefinedCompletion))))
             (js ''sessionCompletion'') = JObj fmempty"
    "field (JObj (ownProps DEFAULT_STATE ++\<^sub>f undefinedCompletion)) (js ''sessionCompletion'')
     = JUndefined"
    by (simp_all add: getState_setState_JObj[OF undefinedCompletion_lookup(1)] field_spread
        fmlookup_jsonify_props undefinedCompletion_lookup ownProps_DEFAULT_STATE
        DEFAULT_STATE_fields)
  have n: "field (fst (getState (setState unlimited Map.empty (JObj nanIndex))))
             (js ''currentSessionIndex'') = JNull"
    "field (JObj (ownProps DEFAULT_STATE ++\<^sub>f nanIndex)) (js ''currentSessionIndex'') = JNum NaN"
    by (simp_all add: getState_setState_JObj[OF nanIndex_lookup(1)] field_spread
        fmlookup_jsonify_props nanIndex_lookup jsonNumber_def)
  have e: "field (fst (getState (setState exhausted Map.empty (JObj sampleSnapshot)))) (js ''panel'')
           = JStr (js ''landing'')"
    "field (JObj (ownProps DEFAULT_STATE ++\<^sub>f sampleSnapshot)) (js ''panel'')
     = JStr (js ''workout'')"
    by (simp_all add: setState_refused getState_def getItem_def DEFAULT_STATE_fields field_spread
        sampleSnapshot_lookup)
  show ?thesis
    using u n e by (simp add: undefinedCompletion_lookup nanIndex_lookup sampleSnapshot_ok)
qed


section \<open>The state action layer\<close>

lemma updateState_setState:
  "updateState quota st u
   = setState quota (snd (getState st)) (JObj (ownProps (fst (getState st)) ++\<^sub>f u))"
  by (cases "getState st") (simp add: updateState_def)

lemma updateState_document:
  assumes "\<forall>k v. fmlookup u k = Some v \<longrightarrow> jsonData v"
    and "writeAccepted quota (snd (getState st)) (JObj (ownProps (fst (getState st)) ++\<^sub>f u))"
  shows "\<exists>doc. storedDocument (updateState quota st u) = Some doc
           \<and> (\<forall>k. field doc k
                  = (case fmlookup u k of Some v \<Rightarrow> v | None \<Rightarrow> field (fst (getState st)) k))"
proof -
  obtain pm where pm: "fst (getState st) = JObj pm"
    "\<forall>k v. fmlookup pm k = Some v \<longrightarrow> jsonify v = v"
    using getState_is_object by blast
  have a: "writeAccepted quota (snd (getState st)) (JObj (pm ++\<^sub>f u))"
    using assms(2) by (simp add: pm(1) ownProps_def)
  have u: "updateState quota st u = setState quota (snd (getState st)) (JObj (pm ++\<^sub>f u))"
    by (simp add: updateState_setState pm(1) ownProps_def)
  have "field (jsonify (JObj (pm ++\<^sub>f u))) k
        = (case fmlookup u k of Some v \<Rightarrow> v | None \<Rightarrow> field (JObj pm) k)" for k
  proof (cases "fmlookup u k")
    case None
    then have "fmlookup (pm ++\<^sub>f u) k = fmlookup pm k"
      by (simp add: fmlookup_dom_iff)
    then show ?thesis
      using None pm(2) by (simp add: field_jsonify_JObj field_JObj del: jsonify.simps split: option.splits)
  next
    case (Some v)
    then have "jsonData v" using assms(1) by blast
    then have "jsonify v = v" by (simp add: jsonify_jsonData)
    moreover have "fmlookup (pm ++\<^sub>f u) k = Some v"
      using Some by (simp add: fmlookup_dom_iff)
    ultimately show ?thesis
      using Some by (simp add: field_jsonify_JObj del: jsonify.simps)
  qed
  then have f: "\<forall>k. field (jsonify (JObj (pm ++\<^sub>f u))) k
        = (case fmlookup u k of Some v \<Rightarrow> v | None \<Rightarrow> field (fst (getState st)) k)"
    by (simp only: pm(1)) simp
  have sd: "storedDocument (updateState quota st u) = Some (jsonify (JObj (pm ++\<^sub>f u)))"
    by (simp only: u) (simp add: storedDocument_setState[OF a])
  show ?thesis
    using sd f by blast
qed

lemma getItem_updateState_other:
  "k \<noteq> STORAGE_KEY \<Longrightarrow> getItem (updateState quota st u) k = getItem st k"
  by (simp add: updateState_setState getItem_setState_other getItem_getState_other)

lemma jsonData_rowValue: "jsonData (rowValue row)"
  by (auto simp: rowValue_def optionalProp_def fmpred_iff fmlookup_of_list
      dest!: map_of_SomeD split: option.splits)

lemma jsonData_setCsvDataUpdates:
  "fmlookup (fmap_of_list (setCsvDataUpdates csvText parsedRows names)) k = Some v
   \<Longrightarrow> jsonData v"
  by (auto simp: setCsvDataUpdates_def list.pred_map list_all_iff jsonData_rowValue
      split: if_splits)

lemma fmlookup_setCsvDataUpdates_None:
  "k \<notin> set csvDataKeys
   \<Longrightarrow> fmlookup (fmap_of_list (setCsvDataUpdates csvText parsedRows names)) k = None"
  by (auto simp: setCsvDataUpdates_def csvDataKeys_def)

lemma field_getState: "field (fst (getState st)) k = priorField st k"
proof (cases "getItem st STORAGE_KEY")
  case None
  then show ?thesis by (simp add: getState_def priorField_def storedDocument_def)
next
  case (Some stored)
  show ?thesis
  proof (cases stored)
    case Unparsable
    then show ?thesis
      using Some by (simp add: getState_def priorField_def storedDocument_def JSON_parse_def)
  next
    case (Stringified v)
    then have sd: "storedDocument st = Some (jsonify v)"
      using Some by (simp add: storedDocument_def JSON_parse_def)
    show ?thesis
    proof (cases "getProp (jsonify v) (js ''version'')")
      case (Inl e)
      then have "field (jsonify v) (js ''version'') = JUndefined"
        by (simp add: field_def)
      then show ?thesis
        using Some Stringified Inl sd
        by (simp add: getState_def priorField_def JSON_parse_def SCHEMA_VERSION_def)
    next
      case ver: (Inr version)
      then have fv: "field (jsonify v) (js ''version'') = version"
        by (simp add: field_def)
      show ?thesis
      proof (cases "version = JNum SCHEMA_VERSION")
        case False
        then show ?thesis
          using Some Stringified ver sd fv by (simp add: getState_def priorField_def JSON_parse_def)
      next
        case True
        then obtain pm where pm: "jsonify v = JObj pm"
          using ver getProp_version_JObj by blast
        then obtain m where m: "v = JObj m" "pm = dropUndefined (fmmap jsonify m)"
          using jsonify_JObj_D by blast
        have g: "fst (getState st) = JObj (ownProps DEFAULT_STATE ++\<^sub>f pm)"
          using Some Stringified ver True pm
          by (simp add: getState_def JSON_parse_def ownProps_def del: jsonify.simps)
        have "fmlookup pm k \<noteq> Some JUndefined"
          by (simp add: m(2) fmlookup_dropUndefined)
        then have "field (JObj (ownProps DEFAULT_STATE ++\<^sub>f pm)) k
                   = (if field (JObj pm) k \<noteq> JUndefined then field (JObj pm) k
                      else field DEFAULT_STATE k)"
          unfolding field_spread ownProps_DEFAULT_STATE
          by (cases "fmlookup pm k") (simp_all add: field_JObj)
        then show ?thesis
          using g sd fv True pm by (simp add: priorField_def del: jsonify.simps)
      qed
    qed
  qed
qed

text \<open>
  Claim C8, as amended. When the storage accepts the write of \<open>setCsvData\<close>, the stored
  document has the arguments of the call in \<open>csvText\<close>, \<open>parsedRows\<close> and
  \<open>sessionNames\<close>, the empty list in \<open>selectedSessions\<close>, \<open>0\<close> in
  \<open>currentSessionIndex\<close> and the empty object in \<open>currentExerciseIndex\<close> and
  \<open>checkedSets\<close>; every other field of the document (\<open>panel\<close>, \<open>sessionTemplates\<close>,
  \<open>timers\<close>, \<open>version\<close>, \<open>csvMeta\<close> and \<open>sessionCompletion\<close> among them) is the field of
  the state that \<open>getState\<close> read before the call, which is the field of the stored
  document when that document has the current schema version and has the field, and the
  field of the default document otherwise. When the storage refuses the write, it is
  left as \<open>getState\<close> left it. In both cases no other key of the storage changes.
\<close>

theorem setCsvData_effect:
  "(setCsvDataAccepted quota st csvText parsedRows names \<longrightarrow>
      (\<exists>doc. storedDocument (setCsvData quota st csvText parsedRows names) = Some doc
         \<and> field doc (js ''csvText'') = JStr csvText
         \<and> field doc (js ''parsedRows'') = JArr (map rowValue parsedRows)
         \<and> field doc (js ''sessionNames'') = JArr (map JStr names)
         \<and> field doc (js ''selectedSessions'') = JArr []
         \<and> field doc (js ''currentSessionIndex'') = JNum (Finite 0)
         \<and> field doc (js ''currentExerciseIndex'') = JObj fmempty
         \<and> field doc (js ''checkedSets'') = JObj fmempty
         \<and> (\<forall>k. k \<notin> set csvDataKeys \<longrightarrow>
               field doc k = field (fst (getState st)) k \<and> field doc k = priorField st k)))
   \<and> (\<not> setCsvDataAccepted quota st csvText parsedRows names \<longrightarrow>
        setCsvData quota st csvText parsedRows names = snd (getState st))
   \<and> (\<forall>k. k \<noteq> STORAGE_KEY \<longrightarrow>
         getItem (setCsvData quota st csvText parsedRows names) k = getItem st k)"
proof -
  let ?u = "fmap_of_list (setCsvDataUpdates csvText parsedRows names)"
  have accepted: "\<exists>doc. storedDocument (setCsvData quota st csvText parsedRows names) = Some doc
         \<and> field doc (js ''csvText'') = JStr csvText
         \<and> field doc (js ''parsedRows'') = JArr (map rowValue parsedRows)
         \<and> field doc (js ''sessionNames'') = JArr (map JStr names)
         \<and> field doc (js ''selectedSessions'') = JArr []
         \<and> field doc (js ''currentSessionIndex'') = JNum (Finite 0)
         \<and> field doc (js ''currentExerciseIndex'') = JObj fmempty
         \<and> field doc (js ''checkedSets'') = JObj fmempty
         \<and> (\<forall>k. k \<notin> set csvDataKeys \<longrightarrow>
               field doc k = field (fst (getState st)) k \<and> field doc k = priorField st k)"
    if a: "setCsvDataAccepted quota st csvText parsedRows names"
  proof -
    have "\<forall>k v. fmlookup ?u k = Some v \<longrightarrow> jsonData v"
      using jsonData_setCsvDataUpdates by blast
    moreover have "writeAccepted quota (snd (getState st))
                     (JObj (ownProps (fst (getState st)) ++\<^sub>f ?u))"
      using a by (simp add: setCsvDataAccepted_def)
    ultimately obtain doc where doc: "storedDocument (updateState quota st ?u) = Some doc"
      "\<forall>k. field doc k = (case fmlookup ?u k of Some v \<Rightarrow> v | None \<Rightarrow> field (fst (getState st)) k)"
      using updateState_document by blast
    have "field doc (js ''csvText'') = JStr csvText"
      "field doc (js ''parsedRows'') = JArr (map rowValue parsedRows)"
      "field doc (js ''sessionNames'') = JArr (map JStr names)"
      "field doc (js ''selectedSessions'') = JArr []"
      "field doc (js ''currentSessionIndex'') = JNum (Finite 0)"
      "field doc (js ''currentExerciseIndex'') = JObj fmempty"
      "field doc (js ''checkedSets'') = JObj fmempty"
      by (simp_all add: doc(2) setCsvDataUpdates_def)
    moreover have "\<forall>k. k \<notin> set csvDataKeys \<longrightarrow>
        field doc k = field (fst (getState st)) k \<and> field doc k = priorField st k"
      by (simp add: doc(2) fmlookup_setCsvDataUpdates_None field_getState)
    ultimately show ?thesis
      unfolding setCsvData_def using doc(1) by blast
  qed
  have refused: "setCsvData quota st csvText parsedRows names = snd (getState st)"
    if "\<not> setCsvDataAccepted quota st csvText parsedRows names"
    using that by (simp add: setCsvData_def updateState_setState setCsvDataAccepted_def setState_refused)
  have others: "\<forall>k. k \<noteq> STORAGE_KEY \<longrightarrow>
         getItem (setCsvData quota st csvText parsedRows names) k = getItem st k"
    by (simp add: setCsvData_def getItem_updateState_other)
  show ?thesis
    using accepted refused others by blast
qed

lemma getState_sampleStore:
  "field (fst (getState sampleStore)) (js ''panel'') = JStr (js ''workout'')"
  "field (fst (getState sampleStore)) (js ''version'') = JNum (Finite 1)"
  "field (fst (getState sampleStore)) (js ''sessionCompletion'') = JObj fmempty"
  "field (fst (getState sampleStore)) (js ''csvText'') = JUndefined"
  "snd (getState sampleStore) = sampleStore"
  by (simp_all add: sampleStore_def getState_setState_JObj[OF sampleSnapshot_ok(1)] field_spread
      fmlookup_jsonify_props sampleSnapshot_lookup ownProps_DEFAULT_STATE DEFAULT_STATE_fields
      SCHEMA_VERSION_def)

lemma csvDataKeys_others:
  "js ''panel'' \<notin> set csvDataKeys" "js ''version'' \<notin> set csvDataKeys"
  "js ''sessionCompletion'' \<notin> set csvDataKeys"
  by (simp_all add: csvDataKeys_def)

theorem setCsvData_effect_witness:
  "setCsvDataAccepted unlimited sampleStore (js ''x'') [] [js ''Day 2'']
   \<and> (\<exists>doc. storedDocument (setCsvData unlimited sampleStore (js ''x'') [] [js ''Day 2'']) = Some doc
         \<and> field doc (js ''csvText'') = JStr (js ''x'')
         \<and> field doc (js ''sessionNames'') = JArr [JStr (js ''Day 2'')]
         \<and> field doc (js ''selectedSessions'') = JArr []
         \<and> field doc (js ''panel'') = JStr (js ''workout'')
         \<and> field doc (js ''version'') = JNum (Finite 1)
         \<and> field doc (js ''sessionCompletion'') = JObj fmempty)
   \<and> \<not> setCsvDataAccepted exhausted sampleStore (js ''x'') [] [js ''Day 2'']
   \<and> setCsvData exhausted sampleStore (js ''x'') [] [js ''Day 2''] = sampleStore"
proof -
  have a: "setCsvDataAccepted unlimited sampleStore (js ''x'') [] [js ''Day 2'']"
    "\<not> setCsvDataAccepted exhausted sampleStore (js ''x'') [] [js ''Day 2'']"
    by (simp_all add: setCsvDataAccepted_def)
  show ?thesis
    using setCsvData_effect[of unlimited sampleStore "js ''x''" "[]" "[js ''Day 2'']"]
      setCsvData_effect[of exhausted sampleStore "js ''x''" "[]" "[js ''Day 2'']"]
      a getState_sampleStore csvDataKeys_others
    by auto
qed

theorem setCsvData_effect_counterexample:
  "map_option (\<lambda>doc. (field doc (js ''panel''), field doc (js ''version''))) (storedDocument oldStore)
   = Some (JStr (js ''workout''), JNum (Finite 0))
   \<and> js ''panel'' \<notin> set csvDataKeys \<and> js ''version'' \<notin> set csvDataKeys
   \<and> setCsvDataAccepted unlimited oldStore (js ''x'') [] [js ''Day 2'']
   \<and> map_option (\<lambda>doc. (field doc (js ''panel''), field doc (js ''version'')))
       (storedDocument (setCsvData unlimited oldStore (js ''x'') [] [js ''Day 2'']))
     = Some (JStr (js ''landing''), JNum (Finite 1))
   \<and> map_option (\<lambda>doc. field doc (js ''csvText''))
       (storedDocument (setCsvData exhausted sampleStore (js ''x'') [] [js ''Day 2'']))
     = Some JUndefined"
proof -
  let ?old = "JObj (fmap_of_list [(js ''version'', JNum (Finite 0)), (js ''panel'', JStr (js ''workout''))])"
  have d: "jsonData ?old"
    by (simp add: fmpred_iff)
  have sd: "storedDocument oldStore = Some ?old"
    using jsonify_jsonData[OF d]
    by (simp add: oldStore_def storedDocument_def getItem_def JSON_parse_def del: jsonify.simps)
  have before: "map_option (\<lambda>doc. (field doc (js ''panel''), field doc (js ''version'')))
                  (storedDocument oldStore) = Some (JStr (js ''workout''), JNum (Finite 0))"
    by (simp add: sd field_JObj)
  have p: "priorField oldStore k = field DEFAULT_STATE k" for k
    by (simp add: priorField_def sd field_JObj SCHEMA_VERSION_def)
  have a: "setCsvDataAccepted unlimited oldStore (js ''x'') [] [js ''Day 2'']"
    by (simp add: setCsvDataAccepted_def)
  have "\<exists>doc. storedDocument (updateState unlimited oldStore
                  (fmap_of_list (setCsvDataUpdates (js ''x'') [] [js ''Day 2'']))) = Some doc
           \<and> (\<forall>k. field doc k
                  = (case fmlookup (fmap_of_list (setCsvDataUpdates (js ''x'') [] [js ''Day 2''])) k of
                       Some v \<Rightarrow> v | None \<Rightarrow> field (fst (getState oldStore)) k))"
    using jsonData_setCsvDataUpdates a
    by (intro updateState_document) (auto simp: setCsvDataAccepted_def)
  then obtain doc where doc:
    "storedDocument (setCsvData unlimited oldStore (js ''x'') [] [js ''Day 2'']) = Some doc"
    "field doc (js ''panel'') = field DEFAULT_STATE (js ''panel'')"
    "field doc (js ''version'') = field DEFAULT_STATE (js ''version'')"
    using csvDataKeys_others
    by (auto simp: setCsvData_def fmlookup_setCsvDataUpdates_None field_getState p)
  have after: "map_option (\<lambda>doc. (field doc (js ''panel''), field doc (js ''version'')))
                 (storedDocument (setCsvData unlimited oldStore (js ''x'') [] [js ''Day 2'']))
               = Some (JStr (js ''landing''), JNum (Finite 1))"
    by (simp add: doc DEFAULT_STATE_fields SCHEMA_VERSION_def)
  have r: "setCsvData exhausted sampleStore (js ''x'') [] [js ''Day 2''] = sampleStore"
    by (simp add: setCsvData_def updateState_setState setState_refused getState_sampleStore)
  have sd': "storedDocument sampleStore = Some (jsonify (JObj sampleSnapshot))"
    by (simp add: sampleStore_def storedDocument_setState del: jsonify.simps)
  have "field (jsonify (JObj sampleSnapshot)) (js ''csvText'') = JUndefined"
    by (simp only: field_jsonify_JObj sampleSnapshot_lookup) simp
  then have refused: "map_option (\<lambda>doc. field doc (js ''csvText''))
       (storedDocument (setCsvData exhausted sampleStore (js ''x'') [] [js ''Day 2'']))
     = Some JUndefined"
    by (simp only: r sd') simp
  show ?thesis
    using before after refused a csvDataKeys_others by simp
qed

end
